theory Spec2Isabelle
  imports Main "HOL-Library.AList" "HOL-Library.Log_Nat"
begin

section \<open>Strings of the host language\<close>

text \<open>
  A string is a list of characters; a character stands for one UTF-16 code unit below 256.
  The functions of this section are the string primitives that \<^verbatim>\<open>static-theme.ts\<close> calls
  (\<^verbatim>\<open>split\<close>, \<^verbatim>\<open>join\<close>, \<^verbatim>\<open>trim\<close>, \<^verbatim>\<open>toLowerCase\<close>, \<^verbatim>\<open>toUpperCase\<close>, \<^verbatim>\<open>findIndex\<close>),
  written out as ECMAScript defines them.
\<close>

definition NL :: char where
  "NL = CHR 0x0A"

definition CR :: char where
  "CR = CHR 0x0D"

text \<open>The white space and line terminators that \<^verbatim>\<open>String.prototype.trim\<close> strips
  (tab, line feed, vertical tab, form feed, carriage return, space, no-break space).\<close>

definition isWhiteSpace :: "char \<Rightarrow> bool" where
  "isWhiteSpace c \<longleftrightarrow> c \<in> set [CHR 0x09, CHR 0x0A, CHR 0x0B, CHR 0x0C, CHR 0x0D, CHR 0x20, CHR 0xA0]"

definition trim :: "string \<Rightarrow> string" where
  "trim s = rev (dropWhile isWhiteSpace (rev (dropWhile isWhiteSpace s)))"

definition upperAZ :: string where
  "upperAZ = ''ABCDEFGHIJKLMNOPQRSTUVWXYZ''"

definition lowerAZ :: string where
  "lowerAZ = ''abcdefghijklmnopqrstuvwxyz''"

definition isUpperAZ :: "char \<Rightarrow> bool" where
  "isUpperAZ c \<longleftrightarrow> c \<in> set upperAZ"

text \<open>Case conversion of the letters A-Z and a-z; every other character is left as it is.
  The source converts only section headers (letters A-Z and spaces), the names of
  \<open>staticThemeProps\<close>, and sort keys from which every character outside \<^verbatim>\<open>[0-9a-z.]\<close> is
  removed afterwards.\<close>

definition charToLower :: "char \<Rightarrow> char" where
  "charToLower c = (case map_of (zip upperAZ lowerAZ) c of Some d \<Rightarrow> d | None \<Rightarrow> c)"

definition charToUpper :: "char \<Rightarrow> char" where
  "charToUpper c = (case map_of (zip lowerAZ upperAZ) c of Some d \<Rightarrow> d | None \<Rightarrow> c)"

definition toLowerCase :: "string \<Rightarrow> string" where
  "toLowerCase s = map charToLower s"

definition toUpperCase :: "string \<Rightarrow> string" where
  "toUpperCase s = map charToUpper s"

text \<open>\<^verbatim>\<open>s.split(c)\<close> for a one-character separator: never the empty list.\<close>

fun splitOn :: "char \<Rightarrow> string \<Rightarrow> string list" where
  "splitOn d [] = [[]]"
| "splitOn d (c # cs) =
     (if c = d then [] # splitOn d cs
      else (case splitOn d cs of
              [] \<Rightarrow> [[c]]
            | l # ls \<Rightarrow> (c # l) # ls))"

text \<open>\<^verbatim>\<open>s.split(/={2,}/g)\<close>: every maximal run of two or more \<^verbatim>\<open>=\<close> is one separator;
  a single \<^verbatim>\<open>=\<close> stays in its piece.\<close>

function splitEq :: "string \<Rightarrow> string list" where
  "splitEq [] = [[]]"
| "splitEq (c # cs) =
     (if c = CHR ''='' \<and> cs \<noteq> [] \<and> hd cs = CHR ''=''
      then [] # splitEq (dropWhile (\<lambda>x. x = CHR ''='') cs)
      else (case splitEq cs of
              [] \<Rightarrow> [[c]]
            | l # ls \<Rightarrow> (c # l) # ls))"
  by pat_completeness auto
termination
  by (relation "measure length") (auto simp: less_Suc_eq_le length_dropWhile_le)

text \<open>\<^verbatim>\<open>xs.join(sep)\<close>.\<close>

fun join :: "string \<Rightarrow> string list \<Rightarrow> string" where
  "join sep [] = []"
| "join sep [x] = x"
| "join sep (x # y # ys) = x @ sep @ join sep (y # ys)"

text \<open>\<^verbatim>\<open>xs.findIndex(p)\<close>: the first index whose element satisfies \<open>p\<close>, or -1.\<close>

fun findIndex :: "('a \<Rightarrow> bool) \<Rightarrow> 'a list \<Rightarrow> int" where
  "findIndex p [] = -1"
| "findIndex p (x # xs) =
     (if p x then 0
      else (let i = findIndex p xs in if i < 0 then -1 else i + 1))"

section \<open>Errors and sequencing\<close>

text \<open>\<open>MalformedCatalogue\<close> is the \<^verbatim>\<open>Error('Common theme is missing')\<close> that the parser throws;
  \<open>TypeError\<close> is the host's exception for a method call or property read on a value that
  has none.\<close>

datatype error = MalformedCatalogue | TypeError

text \<open>\<^verbatim>\<open>forEach\<close> with a body that may throw: the first exception ends the loop.\<close>

fun foldE :: "('s \<Rightarrow> 'a \<Rightarrow> error + 's) \<Rightarrow> 'a list \<Rightarrow> 's \<Rightarrow> error + 's" where
  "foldE f [] s = Inr s"
| "foldE f (x # xs) s = (case f s x of Inl e \<Rightarrow> Inl e | Inr s' \<Rightarrow> foldE f xs s')"

section \<open>The catalogue\<close>

text \<open>A \<^verbatim>\<open>StaticTheme\<close>: the \<open>url\<close> list, the \<open>noCommon\<close> flag (absent counts as false: the
  source only tests its truthiness), and the selector lists by property name, in the
  order in which the properties were first assigned.\<close>

record StaticTheme =
  url :: "string list"
  noCommon :: bool
  selectors :: "(string \<times> string list) list"

subsection \<open>parseUrlSelectorConfig\<close>

text \<open>\<^verbatim>\<open>Boolean(text.match(/^[A-Z ]+$/))\<close>.\<close>

definition isPropertyName :: "string \<Rightarrow> bool" where
  "isPropertyName text \<longleftrightarrow> text \<noteq> [] \<and> list_all (\<lambda>c. isUpperAZ c \<or> c = CHR '' '') text"

text \<open>The conversion of a header from UPPER CASE to lowerCase.\<close>

definition toPropName :: "string \<Rightarrow> string" where
  "toPropName line =
     concat (map (\<lambda>(i, word).
                    if i = 0 then toLowerCase word
                    else toUpperCase (take 1 word) @ toLowerCase (drop 1 word))
                 (enumerate 0 (splitOn (CHR '' '') line)))"

text \<open>\<^verbatim>\<open>raw[prop] = true\<close> for \<open>noCommon\<close> and \<^verbatim>\<open>raw[prop] = []\<close> for every other name; the
  name \<open>url\<close> addresses the record's url list.\<close>

definition assignProp :: "StaticTheme \<Rightarrow> string \<Rightarrow> StaticTheme" where
  "assignProp raw prop =
     (if prop = ''noCommon'' then raw\<lparr>noCommon := True\<rparr>
      else if prop = ''url'' then raw\<lparr>url := []\<rparr>
      else raw\<lparr>selectors := AList.update prop [] (selectors raw)\<rparr>)"

text \<open>\<^verbatim>\<open>raw[prop].push(line)\<close>: a \<open>TypeError\<close> when \<open>raw[prop]\<close> is \<^verbatim>\<open>true\<close> or undefined.\<close>

definition pushLine :: "StaticTheme \<Rightarrow> string option \<Rightarrow> string \<Rightarrow> error + StaticTheme" where
  "pushLine raw prop line =
     (case prop of
        None \<Rightarrow> Inl TypeError
      | Some p \<Rightarrow>
          if p = ''noCommon'' then Inl TypeError
          else if p = ''url'' then Inr (raw\<lparr>url := url raw @ [line]\<rparr>)
          else (case map_of (selectors raw) p of
                  None \<Rightarrow> Inl TypeError
                | Some xs \<Rightarrow> Inr (raw\<lparr>selectors := AList.update p (xs @ [line]) (selectors raw)\<rparr>)))"

text \<open>The body of the inner \<^verbatim>\<open>forEach\<close>; the state is \<open>raw\<close> and the current \<open>prop\<close>.\<close>

definition sectionLine ::
  "StaticTheme \<times> string option \<Rightarrow> string \<Rightarrow> error + StaticTheme \<times> string option" where
  "sectionLine st line =
     (case st of (raw, prop) \<Rightarrow>
        if isPropertyName line
        then (let prop' = toPropName line in Inr (assignProp raw prop', Some prop'))
        else (case pushLine raw prop line of
                Inl e \<Rightarrow> Inl e
              | Inr raw' \<Rightarrow> Inr (raw', prop)))"

text \<open>The trimmed, non-empty lines of a block.\<close>

definition blockLines :: "string \<Rightarrow> string list" where
  "blockLines block = filter (\<lambda>l. l \<noteq> []) (map trim (splitOn NL block))"

text \<open>The body of the outer \<^verbatim>\<open>forEach\<close>: the record of one block.\<close>

definition parseBlock :: "string \<Rightarrow> error + StaticTheme" where
  "parseBlock block =
     (let lines = blockLines block;
          i = findIndex isPropertyName lines;
          firstCommandIndex = (if i < 0 then int (length lines) else i);
          u = take (nat firstCommandIndex) lines;
          raw = \<lparr>url = u, noCommon = False, selectors = []\<rparr>
      in case foldE sectionLine (drop (length u) lines) (raw, None) of
           Inl e \<Rightarrow> Inl e
         | Inr (raw', prop) \<Rightarrow> Inr raw')"

definition parseBlocks :: "string list \<Rightarrow> error + StaticTheme list" where
  "parseBlocks blocks =
     foldE (\<lambda>themes block.
              case parseBlock block of
                Inl e \<Rightarrow> Inl e
              | Inr raw \<Rightarrow> Inr (themes @ [raw]))
           blocks []"

definition textBlocks :: "string \<Rightarrow> string list" where
  "textBlocks text = splitEq (filter (\<lambda>c. c \<noteq> CR) text)"

text \<open>\<^verbatim>\<open>themes[0]\<close>, undefined on the empty list.\<close>

definition getCommonTheme :: "StaticTheme list \<Rightarrow> StaticTheme option" where
  "getCommonTheme themes = (case themes of [] \<Rightarrow> None | t # ts \<Rightarrow> Some t)"

text \<open>\<^verbatim>\<open>common && common.url && common.url[0] === '*'\<close>.\<close>

definition hasCommon :: "StaticTheme list \<Rightarrow> bool" where
  "hasCommon themes =
     (case getCommonTheme themes of
        None \<Rightarrow> False
      | Some common \<Rightarrow> (case url common of [] \<Rightarrow> False | u # us \<Rightarrow> u = ''*''))"

definition parseUrlSelectorConfig :: "string \<Rightarrow> error + StaticTheme list" where
  "parseUrlSelectorConfig text =
     (case parseBlocks (textBlocks text) of
        Inl e \<Rightarrow> Inl e
      | Inr themes \<Rightarrow> if hasCommon themes then Inr themes else Inl MalformedCatalogue)"

text \<open>\<open>url[0]\<close> of a record, undefined on the empty list.\<close>

definition primaryPattern :: "StaticTheme \<Rightarrow> string option" where
  "primaryPattern t = (case url t of [] \<Rightarrow> None | u # us \<Rightarrow> Some u)"

subsection \<open>Sorting\<close>

text \<open>\<^verbatim>\<open>Array.prototype.sort\<close> with a consistent comparator: the result is ordered by the
  comparator and stable (elements that compare equal keep their order; ECMAScript 2019).
  Written as insertion from the right, which gives exactly that result.\<close>

fun insertBy :: "('a \<Rightarrow> 'a \<Rightarrow> int) \<Rightarrow> 'a \<Rightarrow> 'a list \<Rightarrow> 'a list" where
  "insertBy cmp x [] = [x]"
| "insertBy cmp x (y # ys) = (if cmp x y \<le> 0 then x # y # ys else y # insertBy cmp x ys)"

definition sortBy :: "('a \<Rightarrow> 'a \<Rightarrow> int) \<Rightarrow> 'a list \<Rightarrow> 'a list" where
  "sortBy cmp xs = foldr (insertBy cmp) xs []"

subsection \<open>formatUrlSelectorConfig\<close>

text \<open>\<^verbatim>\<open>text.replace(/([A-Z])/g, ' $1').toUpperCase().trim()\<close>.\<close>

definition camelCaseToUpperCase :: "string \<Rightarrow> string" where
  "camelCaseToUpperCase text =
     trim (toUpperCase (concat (map (\<lambda>c. if isUpperAZ c then [CHR '' '', c] else [c]) text)))"

text \<open>The sort key \<^verbatim>\<open>url[0].toLowerCase().replace(/[^0-9a-z\.]/g, '')\<close> of a primary
  pattern.\<close>

definition isKeyChar :: "char \<Rightarrow> bool" where
  "isKeyChar c \<longleftrightarrow> c \<in> set (''0123456789'' @ lowerAZ @ ''.'')"

definition sortKey :: "string \<Rightarrow> string" where
  "sortKey u = filter isKeyChar (toLowerCase u)"

text \<open>\<^verbatim>\<open>a.localeCompare(b)\<close> on sort keys. The keys are strings over \<^verbatim>\<open>[0-9a-z.]\<close>; in the root
  collation these characters are ordered as their code units are (full stop, digits,
  letters), so the comparison is the lexicographic one by code unit.\<close>

fun localeCompare :: "string \<Rightarrow> string \<Rightarrow> int" where
  "localeCompare [] [] = 0"
| "localeCompare [] (y # ys) = -1"
| "localeCompare (x # xs) [] = 1"
| "localeCompare (x # xs) (y # ys) =
     (if x = y then localeCompare xs ys
      else if (of_char x :: nat) < of_char y then -1 else 1)"

text \<open>The comparator of the sort; it is only applied to records with a non-empty url list
  (see \<open>formatUrlSelectorConfig\<close>).\<close>

definition compareThemes :: "StaticTheme \<Rightarrow> StaticTheme \<Rightarrow> int" where
  "compareThemes a b = localeCompare (sortKey (hd (url a))) (sortKey (hd (url b)))"

definition staticThemeProps :: "string list" where
  "staticThemeProps =
     [''noCommon'',
      ''neutralBg'', ''neutralBgActive'', ''neutralText'', ''neutralTextActive'', ''neutralBorder'',
      ''redBg'', ''redBgActive'', ''redText'', ''redTextActive'', ''redBorder'',
      ''greenBg'', ''greenBgActive'', ''greenText'', ''greenTextActive'', ''greenBorder'',
      ''blueBg'', ''blueBgActive'', ''blueText'', ''blueTextActive'', ''blueBorder'',
      ''fadeBg'', ''fadeText'', ''transparentBg'',
      ''noImage'', ''invert'']"

text \<open>\<^verbatim>\<open>theme[prop]\<close> when it is an array (\<^verbatim>\<open>Array.isArray\<close>), by property name.\<close>

definition propArray :: "StaticTheme \<Rightarrow> string \<Rightarrow> string list option" where
  "propArray theme prop =
     (if prop = ''url'' then Some (url theme)
      else if prop = ''noCommon'' then None
      else map_of (selectors theme) prop)"

text \<open>The lines pushed for one property of one record.\<close>

definition propLines :: "StaticTheme \<Rightarrow> string \<Rightarrow> string list" where
  "propLines theme prop =
     (if (prop = ''noCommon'' \<and> noCommon theme)
         \<or> (case propArray theme prop of None \<Rightarrow> False | Some xs \<Rightarrow> length xs > 0)
      then [[]] @ [camelCaseToUpperCase prop]
           @ (case propArray theme prop of None \<Rightarrow> [] | Some xs \<Rightarrow> xs)
      else [])"

definition separatorLine :: string where
  "separatorLine = replicate 32 (CHR ''='')"

text \<open>The lines pushed for the record at index \<open>i\<close> of \<open>n\<close> sorted records.\<close>

definition themeLines :: "nat \<Rightarrow> nat \<times> StaticTheme \<Rightarrow> string list" where
  "themeLines n it =
     (case it of (i, theme) \<Rightarrow>
        url theme @ concat (map (propLines theme) staticThemeProps)
        @ (if i < n - 1 then [[], separatorLine, []] else []))"

text \<open>The comparator reads \<^verbatim>\<open>a.url[0].toLowerCase()\<close>, a \<open>TypeError\<close> on an empty url list;
  sorting two or more records applies the comparator to each of them.\<close>

definition formatUrlSelectorConfig :: "StaticTheme list \<Rightarrow> error + string" where
  "formatUrlSelectorConfig staticThemes =
     (if 2 \<le> length staticThemes \<and> list_ex (\<lambda>t. url t = []) staticThemes then Inl TypeError
      else (let themes = sortBy compareThemes staticThemes;
                lines = concat (map (themeLines (length themes)) (enumerate 0 themes)) @ [[]]
            in Inr (join [NL] lines)))"

section \<open>Resolving the record of a page\<close>

text \<open>The functions of the repository that the generator consumes and that are not part of
  this development (\<open>isUrlInList\<close>, \<open>applyFilterToColor\<close>, \<open>createTextRule\<close>) are parameters,
  and so is the host's notation of the numbers that are not integers below \<open>2^53\<close>
  (\<open>fractionToString\<close>, see \<open>numberToString\<close>).
  The configuration type is declared elsewhere too: the three fields that the generator
  reads are named, the others are the record's extension.\<close>

datatype number = Finite rat | NaN

type_synonym color = "number list"

record FilterConfig =
  mode :: int
  useFont :: bool
  textStroke :: rat

record 'c externals =
  isUrlInList :: "string \<Rightarrow> string list \<Rightarrow> bool"
  applyFilterToColor :: "color \<Rightarrow> 'c FilterConfig_scheme \<Rightarrow> color"
  createTextRule :: "'c FilterConfig_scheme \<Rightarrow> string"
  fractionToString :: "rat \<Rightarrow> string"

text \<open>\<^verbatim>\<open>isUrlInList(url, theme.url) ? theme.url[0].length : 0\<close>; reading \<^verbatim>\<open>length\<close> of the
  undefined \<^verbatim>\<open>url[0]\<close> is a \<open>TypeError\<close>.\<close>

definition specificity ::
  "('c, 'e) externals_scheme \<Rightarrow> string \<Rightarrow> StaticTheme \<Rightarrow> error + nat \<times> StaticTheme" where
  "specificity ext pageUrl theme =
     (if isUrlInList ext pageUrl (url theme)
      then (case url theme of [] \<Rightarrow> Inl TypeError | u # us \<Rightarrow> Inr (length u, theme))
      else Inr (0, theme))"

definition getThemeFor ::
  "('c, 'e) externals_scheme \<Rightarrow> string \<Rightarrow> StaticTheme list \<Rightarrow> error + StaticTheme option" where
  "getThemeFor ext pageUrl themes =
     (case foldE (\<lambda>acc theme.
                    case specificity ext pageUrl theme of
                      Inl e \<Rightarrow> Inl e
                    | Inr st \<Rightarrow> Inr (acc @ [st]))
                 (drop 1 themes) [] of
        Inl e \<Rightarrow> Inl e
      | Inr scored \<Rightarrow>
          (let sortedBySpecificity =
                 sortBy (\<lambda>a b. int (fst b) - int (fst a)) (filter (\<lambda>st. fst st > 0) scored)
           in if length sortedBySpecificity = 0 then Inr None
              else Inr (Some (snd (sortedBySpecificity ! 0)))))"

text \<open>The length of the primary pattern, and the candidates of a page: the records that
  \<open>isUrlInList\<close> accepts and whose primary pattern is not empty.\<close>

definition primaryLength :: "StaticTheme \<Rightarrow> nat" where
  "primaryLength t = (case url t of [] \<Rightarrow> 0 | u # us \<Rightarrow> length u)"

definition candidate :: "('c, 'e) externals_scheme \<Rightarrow> string \<Rightarrow> StaticTheme \<Rightarrow> bool" where
  "candidate ext pageUrl t \<longleftrightarrow> isUrlInList ext pageUrl (url t) \<and> 0 < primaryLength t"

section \<open>Numbers and colours\<close>

text \<open>A number is a finite double, given by its exact rational value, or \<open>NaN\<close>. Arithmetic
  rounds the exact result to the nearest double, ties to even (\<open>fl\<close>, for results in the
  normal range; infinities are not modelled).\<close>

definition ilog2 :: "rat \<Rightarrow> int" where
  "ilog2 x =
     (case quotient_of x of (p, q) \<Rightarrow>
        (let d = bitlen p - bitlen q in if 2 powi d \<le> x then d else d - 1))"

definition roundHalfEven :: "rat \<Rightarrow> int" where
  "roundHalfEven y =
     (let f = \<lfloor>y\<rfloor>; r = y - of_int f
      in if r < 1 / 2 then f else if 1 / 2 < r then f + 1 else if even f then f else f + 1)"

definition fl :: "rat \<Rightarrow> rat" where
  "fl x =
     (if x = 0 then 0
      else (let u = 2 powi (ilog2 \<bar>x\<bar> - 52) in of_int (roundHalfEven (x / u)) * u))"

fun mul :: "number \<Rightarrow> number \<Rightarrow> number" where
  "mul (Finite a) (Finite b) = Finite (fl (a * b))"
| "mul a b = NaN"

fun add :: "number \<Rightarrow> number \<Rightarrow> number" where
  "add (Finite a) (Finite b) = Finite (fl (a + b))"
| "add a b = NaN"

fun sub :: "number \<Rightarrow> number \<Rightarrow> number" where
  "sub (Finite a) (Finite b) = Finite (fl (a - b))"
| "sub a b = NaN"

text \<open>\<^verbatim>\<open>Math.round\<close>: the nearest integer, a tie towards plus infinity.\<close>

fun Math_round :: "number \<Rightarrow> number" where
  "Math_round (Finite a) = Finite (of_int \<lfloor>a + 1 / 2\<rfloor>)"
| "Math_round NaN = NaN"

text \<open>\<^verbatim>\<open>xs[i]\<close> read as a number: the undefined of an index out of range is \<open>NaN\<close> in
  arithmetic.\<close>

definition numAt :: "color \<Rightarrow> nat \<Rightarrow> number" where
  "numAt xs i = (if i < length xs then xs ! i else NaN)"

definition mix :: "color \<Rightarrow> color \<Rightarrow> number \<Rightarrow> color" where
  "mix color1 color2 t =
     map (\<lambda>(i, c). Math_round (add (mul c (sub (Finite 1) t)) (mul (numAt color2 i) t)))
         (enumerate 0 color1)"

text \<open>Decimal notation of a natural number.\<close>

function decimal :: "nat \<Rightarrow> string" where
  "decimal n = (if n < 10 then [''0123456789'' ! n] else decimal (n div 10) @ [''0123456789'' ! (n mod 10)])"
  by pat_completeness auto
termination
  by (relation "measure id") auto

text \<open>The string of a number in a template literal: the shortest decimal notation that
  reads back as the same double. For an integer of absolute value below \<open>2^53\<close> that is its
  decimal notation, since every integer of that range is a double of its own. The notation
  of the other finite numbers (the numbers that are not integers, and the integers from
  \<open>2^53\<close> up, which print with fewer digits and zeros) is the parameter \<open>str\<close>.\<close>

definition numberToString :: "(rat \<Rightarrow> string) \<Rightarrow> number \<Rightarrow> string" where
  "numberToString str x =
     (case x of
        NaN \<Rightarrow> ''NaN''
      | Finite r \<Rightarrow>
          if of_int \<lfloor>r\<rfloor> = r \<and> \<bar>r\<bar> < 2 ^ 53
          then (if r < 0 then ''-'' else []) @ decimal (nat \<bar>\<lfloor>r\<rfloor>\<bar>)
          else str r)"

text \<open>A component of the destructured \<^verbatim>\<open>[r, g, b, a]\<close> in a template literal.\<close>

definition component :: "(rat \<Rightarrow> string) \<Rightarrow> color \<Rightarrow> nat \<Rightarrow> string" where
  "component str c i = (if i < length c then numberToString str (c ! i) else ''undefined'')"

definition rgb :: "(rat \<Rightarrow> string) \<Rightarrow> color \<Rightarrow> string" where
  "rgb str c =
     (if 3 < length c
      then ''rgba('' @ component str c 0 @ '', '' @ component str c 1 @ '', ''
           @ component str c 2 @ '', '' @ component str c 3 @ '')''
      else ''rgb('' @ component str c 0 @ '', '' @ component str c 1 @ '', ''
           @ component str c 2 @ '')'')"

section \<open>The rule table\<close>

record ThemeColors =
  neutralBg :: color
  neutralText :: color
  redBg :: color
  redText :: color
  greenBg :: color
  greenText :: color
  blueBg :: color
  blueText :: color
  fadeBg :: color
  fadeText :: color

text \<open>A colour literal with integer components.\<close>

definition ints :: "int list \<Rightarrow> color" where
  "ints xs = map (\<lambda>x. Finite (of_int x)) xs"

definition darkTheme :: ThemeColors where
  "darkTheme =
     \<lparr>neutralBg = ints [16, 20, 23],
      neutralText = ints [167, 158, 139],
      redBg = ints [64, 12, 32],
      redText = ints [247, 142, 102],
      greenBg = ints [32, 64, 48],
      greenText = ints [128, 204, 148],
      blueBg = ints [32, 48, 64],
      blueText = ints [128, 182, 204],
      fadeBg = ints [16, 20, 23] @ [Finite (1 / 2)],
      fadeText = ints [167, 158, 139] @ [Finite (1 / 2)]\<rparr>"

definition lightTheme :: ThemeColors where
  "lightTheme =
     \<lparr>neutralBg = ints [255, 242, 228],
      neutralText = ints [0, 0, 0],
      redBg = ints [255, 85, 170],
      redText = ints [140, 14, 48],
      greenBg = ints [192, 255, 170],
      greenText = ints [0, 128, 0],
      blueBg = ints [173, 215, 229],
      blueText = ints [28, 16, 171],
      fadeBg = ints [0, 0, 0] @ [Finite (1 / 2)],
      fadeText = ints [0, 0, 0] @ [Finite (1 / 2)]\<rparr>"

text \<open>The constants of \<open>mx\<close>: each literal is the double nearest to its decimal value.\<close>

definition mx_bg_hover :: number where
  "mx_bg_hover = Finite (fl (75 / 1000))"

definition mx_bg_active :: number where
  "mx_bg_active = Finite (fl (1 / 10))"

definition mx_fg_hover :: number where
  "mx_fg_hover = Finite (fl (25 / 100))"

definition mx_fg_active :: number where
  "mx_fg_active = Finite (fl (5 / 10))"

definition mx_border :: number where
  "mx_border = Finite (fl (5 / 10))"

text \<open>The generator that \<^verbatim>\<open>createRuleGen\<close> returns, applied to a record and a palette;
  \<open>None\<close> is its \<^verbatim>\<open>null\<close>.\<close>

definition createRuleGen ::
  "(StaticTheme \<Rightarrow> string list option) \<Rightarrow> (ThemeColors \<Rightarrow> string list) \<Rightarrow> (string \<Rightarrow> string)
     \<Rightarrow> StaticTheme \<Rightarrow> ThemeColors \<Rightarrow> string option" where
  "createRuleGen getSelectors generateDeclarations modifySelector siteTheme themeColors =
     (case getSelectors siteTheme of
        None \<Rightarrow> None
      | Some sels \<Rightarrow>
          if length sels = 0 then None
          else (let lines1 = map (\<lambda>(i, s). modifySelector s
                                     @ (if i < length sels - 1 then '','' else '' {''))
                                 (enumerate 0 sels);
                    declarations = generateDeclarations themeColors;
                    lines2 = map (\<lambda>d. ''    '' @ d @ '' !important;'') declarations
                in Some (join [NL] (lines1 @ lines2 @ [''}'']))))"

text \<open>The table, in the order of the source; \<open>str\<close> is the parameter of
  \<open>numberToString\<close>.\<close>

definition ruleGenerators ::
  "(rat \<Rightarrow> string) \<Rightarrow> (StaticTheme \<Rightarrow> ThemeColors \<Rightarrow> string option) list" where
  "ruleGenerators str =
     [createRuleGen (\<lambda>t. map_of (selectors t) ''neutralBg'')
        (\<lambda>t. [''background-color: '' @ rgb str (neutralBg t)]) (\<lambda>s. s),
      createRuleGen (\<lambda>t. map_of (selectors t) ''neutralBgActive'')
        (\<lambda>t. [''background-color: '' @ rgb str (neutralBg t)]) (\<lambda>s. s),
      createRuleGen (\<lambda>t. map_of (selectors t) ''neutralBgActive'')
        (\<lambda>t. [''background-color: '' @ rgb str (mix (neutralBg t) (ints [255, 255, 255]) mx_bg_hover)])
        (\<lambda>s. s @ '':hover''),
      createRuleGen (\<lambda>t. map_of (selectors t) ''neutralBgActive'')
        (\<lambda>t. [''background-color: '' @ rgb str (mix (neutralBg t) (ints [255, 255, 255]) mx_bg_active)])
        (\<lambda>s. s @ '':active, '' @ s @ '':focus''),
      createRuleGen (\<lambda>t. map_of (selectors t) ''neutralText'')
        (\<lambda>t. [''color: '' @ rgb str (neutralText t)]) (\<lambda>s. s),
      createRuleGen (\<lambda>t. map_of (selectors t) ''neutralTextActive'')
        (\<lambda>t. [''color: '' @ rgb str (neutralText t)]) (\<lambda>s. s),
      createRuleGen (\<lambda>t. map_of (selectors t) ''neutralTextActive'')
        (\<lambda>t. [''color: '' @ rgb str (mix (neutralText t) (ints [255, 255, 255]) mx_fg_hover)])
        (\<lambda>s. s @ '':hover''),
      createRuleGen (\<lambda>t. map_of (selectors t) ''neutralTextActive'')
        (\<lambda>t. [''color: '' @ rgb str (mix (neutralText t) (ints [255, 255, 255]) mx_fg_active)])
        (\<lambda>s. s @ '':active, '' @ s @ '':focus''),
      createRuleGen (\<lambda>t. map_of (selectors t) ''neutralBorder'')
        (\<lambda>t. [''border-color: '' @ rgb str (mix (neutralBg t) (neutralText t) mx_border)]) (\<lambda>s. s),
      createRuleGen (\<lambda>t. map_of (selectors t) ''redBg'')
        (\<lambda>t. [''background-color: '' @ rgb str (redBg t)]) (\<lambda>s. s),
      createRuleGen (\<lambda>t. map_of (selectors t) ''redBgActive'')
        (\<lambda>t. [''background-color: '' @ rgb str (redBg t)]) (\<lambda>s. s),
      createRuleGen (\<lambda>t. map_of (selectors t) ''redBgActive'')
        (\<lambda>t. [''background-color: '' @ rgb str (mix (redBg t) (ints [255, 0, 64]) mx_bg_hover)])
        (\<lambda>s. s @ '':hover''),
      createRuleGen (\<lambda>t. map_of (selectors t) ''redBgActive'')
        (\<lambda>t. [''background-color: '' @ rgb str (mix (redBg t) (ints [255, 0, 64]) mx_bg_active)])
        (\<lambda>s. s @ '':active, '' @ s @ '':focus''),
      createRuleGen (\<lambda>t. map_of (selectors t) ''redText'')
        (\<lambda>t. [''color: '' @ rgb str (redText t)]) (\<lambda>s. s),
      createRuleGen (\<lambda>t. map_of (selectors t) ''redTextActive'')
        (\<lambda>t. [''color: '' @ rgb str (redText t)]) (\<lambda>s. s),
      createRuleGen (\<lambda>t. map_of (selectors t) ''redTextActive'')
        (\<lambda>t. [''color: '' @ rgb str (mix (redText t) (ints [255, 255, 0]) mx_fg_hover)])
        (\<lambda>s. s @ '':hover''),
      createRuleGen (\<lambda>t. map_of (selectors t) ''redTextActive'')
        (\<lambda>t. [''color: '' @ rgb str (mix (redText t) (ints [255, 255, 0]) mx_fg_active)])
        (\<lambda>s. s @ '':active, '' @ s @ '':focus''),
      createRuleGen (\<lambda>t. map_of (selectors t) ''redBorder'')
        (\<lambda>t. [''border-color: '' @ rgb str (mix (redBg t) (redText t) mx_border)]) (\<lambda>s. s),
      createRuleGen (\<lambda>t. map_of (selectors t) ''greenBg'')
        (\<lambda>t. [''background-color: '' @ rgb str (greenBg t)]) (\<lambda>s. s),
      createRuleGen (\<lambda>t. map_of (selectors t) ''greenBgActive'')
        (\<lambda>t. [''background-color: '' @ rgb str (greenBg t)]) (\<lambda>s. s),
      createRuleGen (\<lambda>t. map_of (selectors t) ''greenBgActive'')
        (\<lambda>t. [''background-color: '' @ rgb str (mix (greenBg t) (ints [128, 255, 182]) mx_bg_hover)])
        (\<lambda>s. s @ '':hover''),
      createRuleGen (\<lambda>t. map_of (selectors t) ''greenBgActive'')
        (\<lambda>t. [''background-color: '' @ rgb str (mix (greenBg t) (ints [128, 255, 182]) mx_bg_active)])
        (\<lambda>s. s @ '':active, '' @ s @ '':focus''),
      createRuleGen (\<lambda>t. map_of (selectors t) ''greenText'')
        (\<lambda>t. [''color: '' @ rgb str (greenText t)]) (\<lambda>s. s),
      createRuleGen (\<lambda>t. map_of (selectors t) ''greenTextActive'')
        (\<lambda>t. [''color: '' @ rgb str (greenText t)]) (\<lambda>s. s),
      createRuleGen (\<lambda>t. map_of (selectors t) ''greenTextActive'')
        (\<lambda>t. [''color: '' @ rgb str (mix (greenText t) (ints [182, 255, 224]) mx_fg_hover)])
        (\<lambda>s. s @ '':hover''),
      createRuleGen (\<lambda>t. map_of (selectors t) ''greenTextActive'')
        (\<lambda>t. [''color: '' @ rgb str (mix (greenText t) (ints [182, 255, 224]) mx_fg_active)])
        (\<lambda>s. s @ '':active, '' @ s @ '':focus''),
      createRuleGen (\<lambda>t. map_of (selectors t) ''greenBorder'')
        (\<lambda>t. [''border-color: '' @ rgb str (mix (greenBg t) (greenText t) mx_border)]) (\<lambda>s. s),
      createRuleGen (\<lambda>t. map_of (selectors t) ''blueBg'')
        (\<lambda>t. [''background-color: '' @ rgb str (blueBg t)]) (\<lambda>s. s),
      createRuleGen (\<lambda>t. map_of (selectors t) ''blueBgActive'')
        (\<lambda>t. [''background-color: '' @ rgb str (blueBg t)]) (\<lambda>s. s),
      createRuleGen (\<lambda>t. map_of (selectors t) ''blueBgActive'')
        (\<lambda>t. [''background-color: '' @ rgb str (mix (blueBg t) (ints [0, 128, 255]) mx_bg_hover)])
        (\<lambda>s. s @ '':hover''),
      createRuleGen (\<lambda>t. map_of (selectors t) ''blueBgActive'')
        (\<lambda>t. [''background-color: '' @ rgb str (mix (blueBg t) (ints [0, 128, 255]) mx_bg_active)])
        (\<lambda>s. s @ '':active, '' @ s @ '':focus''),
      createRuleGen (\<lambda>t. map_of (selectors t) ''blueText'')
        (\<lambda>t. [''color: '' @ rgb str (blueText t)]) (\<lambda>s. s),
      createRuleGen (\<lambda>t. map_of (selectors t) ''blueTextActive'')
        (\<lambda>t. [''color: '' @ rgb str (blueText t)]) (\<lambda>s. s),
      createRuleGen (\<lambda>t. map_of (selectors t) ''blueTextActive'')
        (\<lambda>t. [''color: '' @ rgb str (mix (blueText t) (ints [182, 224, 255]) mx_fg_hover)])
        (\<lambda>s. s @ '':hover''),
      createRuleGen (\<lambda>t. map_of (selectors t) ''blueTextActive'')
        (\<lambda>t. [''color: '' @ rgb str (mix (blueText t) (ints [182, 224, 255]) mx_fg_active)])
        (\<lambda>s. s @ '':active, '' @ s @ '':focus''),
      createRuleGen (\<lambda>t. map_of (selectors t) ''blueBorder'')
        (\<lambda>t. [''border-color: '' @ rgb str (mix (blueBg t) (blueText t) mx_border)]) (\<lambda>s. s),
      createRuleGen (\<lambda>t. map_of (selectors t) ''fadeBg'')
        (\<lambda>t. [''background-color: '' @ rgb str (fadeBg t)]) (\<lambda>s. s),
      createRuleGen (\<lambda>t. map_of (selectors t) ''fadeText'')
        (\<lambda>t. [''color: '' @ rgb str (fadeText t)]) (\<lambda>s. s),
      createRuleGen (\<lambda>t. map_of (selectors t) ''transparentBg'')
        (\<lambda>t. [''background-color: transparent'']) (\<lambda>s. s),
      createRuleGen (\<lambda>t. map_of (selectors t) ''noImage'')
        (\<lambda>t. [''background-image: none'']) (\<lambda>s. s),
      createRuleGen (\<lambda>t. map_of (selectors t) ''invert'')
        (\<lambda>t. [''filter: invert(100%) hue-rotate(180deg)'']) (\<lambda>s. s)]"

section \<open>The stylesheet\<close>

text \<open>The palette of one call: every role of the base palette, filtered with the caller's
  configuration in which \<open>mode\<close> is 0.\<close>

definition deriveTheme :: "('c, 'e) externals_scheme \<Rightarrow> 'c FilterConfig_scheme \<Rightarrow> ThemeColors" where
  "deriveTheme ext config =
     (let srcTheme = (if mode config = 1 then darkTheme else lightTheme);
          f = (\<lambda>color. applyFilterToColor ext color (config\<lparr>mode := 0\<rparr>))
      in \<lparr>neutralBg = f (neutralBg srcTheme),
          neutralText = f (neutralText srcTheme),
          redBg = f (redBg srcTheme),
          redText = f (redText srcTheme),
          greenBg = f (greenBg srcTheme),
          greenText = f (greenText srcTheme),
          blueBg = f (blueBg srcTheme),
          blueText = f (blueText srcTheme),
          fadeBg = f (fadeBg srcTheme),
          fadeText = f (fadeText srcTheme)\<rparr>)"

text \<open>\<^verbatim>\<open>Object.entries\<close> of a palette.\<close>

definition entries :: "ThemeColors \<Rightarrow> (string \<times> color) list" where
  "entries t =
     [(''neutralBg'', neutralBg t), (''neutralText'', neutralText t),
      (''redBg'', redBg t), (''redText'', redText t),
      (''greenBg'', greenBg t), (''greenText'', greenText t),
      (''blueBg'', blueBg t), (''blueText'', blueText t),
      (''fadeBg'', fadeBg t), (''fadeText'', fadeText t)]"

text \<open>\<^verbatim>\<open>lines.filter((ln) => ln)\<close>: \<^verbatim>\<open>null\<close> and the empty string are dropped.\<close>

definition keepTruthy :: "string option list \<Rightarrow> string list" where
  "keepTruthy lines =
     concat (map (\<lambda>ln. case ln of None \<Rightarrow> [] | Some s \<Rightarrow> if s = [] then [] else [s]) lines)"

text \<open>The lines of the common block; applying a generator to the undefined \<open>themes[0]\<close> of
  an empty catalogue is a \<open>TypeError\<close>.\<close>

definition commonLines ::
  "(rat \<Rightarrow> string) \<Rightarrow> StaticTheme option \<Rightarrow> ThemeColors \<Rightarrow> error + string option list" where
  "commonLines str commonTheme theme =
     (case commonTheme of
        None \<Rightarrow> Inl TypeError
      | Some c \<Rightarrow> Inr ([Some ''/* Common theme */''] @ map (\<lambda>gen. gen c theme) (ruleGenerators str)))"

definition siteLines :: "(rat \<Rightarrow> string) \<Rightarrow> StaticTheme \<Rightarrow> ThemeColors \<Rightarrow> string option list" where
  "siteLines str siteTheme theme =
     [Some (''/* Theme for '' @ join '' '' (url siteTheme) @ '' */'')]
     @ map (\<lambda>gen. gen siteTheme theme) (ruleGenerators str)"

definition fontLines :: "('c, 'e) externals_scheme \<Rightarrow> 'c FilterConfig_scheme \<Rightarrow> string option list" where
  "fontLines ext config =
     (if useFont config \<or> textStroke config > 0
      then [Some ''/* Font */'', Some (''* '' @ createTextRule ext config)]
      else [])"

definition createStaticStylesheet ::
  "('c, 'e) externals_scheme \<Rightarrow> 'c FilterConfig_scheme \<Rightarrow> string \<Rightarrow> StaticTheme list
     \<Rightarrow> error + string" where
  "createStaticStylesheet ext config pageUrl staticThemes =
     (let theme = deriveTheme ext config;
          commonTheme = getCommonTheme staticThemes
      in case getThemeFor ext pageUrl staticThemes of
           Inl e \<Rightarrow> Inl e
         | Inr siteTheme \<Rightarrow>
             (case (if (case siteTheme of None \<Rightarrow> True | Some s \<Rightarrow> \<not> noCommon s)
                    then commonLines (fractionToString ext) commonTheme theme
                    else Inr []) of
                Inl e \<Rightarrow> Inl e
              | Inr lines1 \<Rightarrow>
                  (let lines2 = (case siteTheme of
                                   None \<Rightarrow> []
                                 | Some s \<Rightarrow> siteLines (fractionToString ext) s theme);
                       lines3 = fontLines ext config
                   in Inr (join [NL] (keepTruthy (lines1 @ lines2 @ lines3))))))"

section \<open>Definitions used to state the properties\<close>

text \<open>Read from the text alone: the lines of a block before its first section header,
  and whether one of its section headers converts to \<open>url\<close> (such a header makes the parser
  assign the url list of the record again).\<close>

definition urlLines :: "string \<Rightarrow> string list" where
  "urlLines block = takeWhile (\<lambda>l. \<not> isPropertyName l) (blockLines block)"

definition hasUrlHeader :: "string \<Rightarrow> bool" where
  "hasUrlHeader block \<longleftrightarrow>
     list_ex (\<lambda>l. isPropertyName l \<and> toPropName l = ''url'') (blockLines block)"

text \<open>The first line of a block, when it is not a section header: what \<open>url[0]\<close> of its record
  is, unless a header assigns the url list again.\<close>

definition blockPrimary :: "string \<Rightarrow> string option" where
  "blockPrimary block = (case urlLines block of [] \<Rightarrow> None | u # us \<Rightarrow> Some u)"

text \<open>The scored entry that \<open>getThemeFor\<close> builds for a record whose score can be read.\<close>

definition score :: "('c, 'e) externals_scheme \<Rightarrow> string \<Rightarrow> StaticTheme \<Rightarrow> nat \<times> StaticTheme" where
  "score ext u t = (if isUrlInList ext u (url t) then primaryLength t else 0, t)"

text \<open>The text of a rule as the specification describes it: the selectors joined by a comma
  and a line break, an opening brace, every declaration indented and marked
  \<^verbatim>\<open>!important\<close>, a closing brace.\<close>

definition cssRule :: "string list \<Rightarrow> string list \<Rightarrow> string" where
  "cssRule sels decls =
     join ('','' @ [NL]) sels @ '' {'' @ [NL]
     @ concat (map (\<lambda>d. ''    '' @ d @ '' !important;'' @ [NL]) decls) @ ''}''"

text \<open>The roles that have hover and active states, as the table of the specification lists
  them: the name of the role, the index of its first entry in \<open>ruleGenerators\<close>, its base
  colour, its accent, its CSS property, and the ratios of the hover and of the active
  mix.\<close>

definition stateRoles ::
  "(string \<times> nat \<times> (ThemeColors \<Rightarrow> color) \<times> int list \<times> string \<times> number \<times> number) list" where
  "stateRoles =
     [(''neutralBg'', 0, neutralBg, [255, 255, 255], ''background-color'', mx_bg_hover, mx_bg_active),
      (''neutralText'', 4, neutralText, [255, 255, 255], ''color'', mx_fg_hover, mx_fg_active),
      (''redBg'', 9, redBg, [255, 0, 64], ''background-color'', mx_bg_hover, mx_bg_active),
      (''redText'', 13, redText, [255, 255, 0], ''color'', mx_fg_hover, mx_fg_active),
      (''greenBg'', 18, greenBg, [128, 255, 182], ''background-color'', mx_bg_hover, mx_bg_active),
      (''greenText'', 22, greenText, [182, 255, 224], ''color'', mx_fg_hover, mx_fg_active),
      (''blueBg'', 27, blueBg, [0, 128, 255], ''background-color'', mx_bg_hover, mx_bg_active),
      (''blueText'', 31, blueText, [182, 224, 255], ''color'', mx_fg_hover, mx_fg_active)]"

text \<open>The border roles: the name, the index of the entry in \<open>ruleGenerators\<close>, and the two
  colours that are mixed.\<close>

definition borderRoles ::
  "(string \<times> nat \<times> (ThemeColors \<Rightarrow> color) \<times> (ThemeColors \<Rightarrow> color)) list" where
  "borderRoles =
     [(''neutralBorder'', 8, neutralBg, neutralText),
      (''redBorder'', 17, redBg, redText),
      (''greenBorder'', 26, greenBg, greenText),
      (''blueBorder'', 35, blueBg, blueText)]"

text \<open>A sample of the external functions, for evaluating the resolver and the generator on
  concrete inputs: a page matches a list that contains it, the filter leaves a colour as it
  is, and one half (the only non-integer of the base palettes) prints as \<^verbatim>\<open>0.5\<close>.\<close>

definition sampleExternals :: "unit externals" where
  "sampleExternals =
     \<lparr>isUrlInList = (\<lambda>u ps. u \<in> set ps),
      applyFilterToColor = (\<lambda>c cfg. c),
      createTextRule = (\<lambda>cfg. ''font-family: serif''),
      fractionToString = (\<lambda>r. ''0.5'')\<rparr>"

definition sampleCommon :: StaticTheme where
  "sampleCommon = \<lparr>url = [''*''], noCommon = False, selectors = [(''neutralBg'', [''body''])]\<rparr>"

definition sampleSite1 :: StaticTheme where
  "sampleSite1 =
     \<lparr>url = [''b.com'', ''a.b.com''], noCommon = False, selectors = [(''neutralBg'', [''nav''])]\<rparr>"

definition sampleSite2 :: StaticTheme where
  "sampleSite2 =
     \<lparr>url = [''a.b.com''], noCommon = True,
      selectors = [(''neutralBg'', [''header'']), (''neutralBgActive'', [''a'', ''button''])]\<rparr>"

definition sampleSite3 :: StaticTheme where
  "sampleSite3 =
     \<lparr>url = [''a.b.org'', ''a.b.com''], noCommon = False, selectors = [(''invert'', [''img''])]\<rparr>"

definition sampleCatalogue :: "StaticTheme list" where
  "sampleCatalogue = [sampleCommon, sampleSite1, sampleSite2, sampleSite3]"

text \<open>No two adjacent \<^verbatim>\<open>=\<close> in a string.\<close>

fun noDoubleEq :: "string \<Rightarrow> bool" where
  "noDoubleEq [] = True"
| "noDoubleEq [c] = True"
| "noDoubleEq (c # d # cs) = (\<not> (c = CHR ''='' \<and> d = CHR ''='') \<and> noDoubleEq (d # cs))"

text \<open>A line that the text format carries unchanged: a single line without carriage
  return, without two adjacent \<^verbatim>\<open>=\<close>, and without white space at its ends.\<close>

definition safeLine :: "string \<Rightarrow> bool" where
  "safeLine l \<longleftrightarrow> NL \<notin> set l \<and> CR \<notin> set l \<and> noDoubleEq l \<and> trim l = l"

text \<open>A url line or selector line of a catalogue written by hand: not blank, carried
  unchanged, and not of the form of a section header.\<close>

definition plainLine :: "string \<Rightarrow> bool" where
  "plainLine l \<longleftrightarrow> l \<noteq> [] \<and> safeLine l \<and> \<not> isPropertyName l"

text \<open>A record of such a catalogue: a non-empty url list, properties of the declared set
  only, and plain lines throughout.\<close>

definition wellFormedRecord :: "StaticTheme \<Rightarrow> bool" where
  "wellFormedRecord t \<longleftrightarrow>
     url t \<noteq> [] \<and> list_all plainLine (url t)
     \<and> list_all (\<lambda>(p, sels). p \<in> set (tl staticThemeProps) \<and> list_all plainLine sels)
          (selectors t)"

text \<open>The selector list of a property, absent read as empty.\<close>

definition selectorList :: "StaticTheme \<Rightarrow> string \<Rightarrow> string list" where
  "selectorList t p = (case map_of (selectors t) p of None \<Rightarrow> [] | Some xs \<Rightarrow> xs)"

text \<open>The non-empty selector lists of a record for a list of properties, in the order of that
  list.\<close>

definition sectionEntries :: "StaticTheme \<Rightarrow> string list \<Rightarrow> (string \<times> string list) list" where
  "sectionEntries t ps =
     concat (map (\<lambda>p. case propArray t p of
                         None \<Rightarrow> []
                       | Some xs \<Rightarrow> if xs = [] then [] else [(p, xs)]) ps)"

text \<open>The record with its non-empty selector lists only, in the declared order of the
  properties.\<close>

definition canonical :: "StaticTheme \<Rightarrow> StaticTheme" where
  "canonical t =
     \<lparr>url = url t, noCommon = noCommon t, selectors = sectionEntries t staticThemeProps\<rparr>"

text \<open>The lines that the formatter pushes for a record before the separator, the same
  lines without the blank ones, and the lines of a whole catalogue before the final blank
  line.\<close>

definition recordLines :: "StaticTheme \<Rightarrow> string list" where
  "recordLines t = url t @ concat (map (propLines t) staticThemeProps)"

definition propSection :: "StaticTheme \<Rightarrow> string \<Rightarrow> string list" where
  "propSection t p =
     (if (p = ''noCommon'' \<and> noCommon t)
         \<or> (case propArray t p of None \<Rightarrow> False | Some xs \<Rightarrow> xs \<noteq> [])
      then camelCaseToUpperCase p # (case propArray t p of None \<Rightarrow> [] | Some xs \<Rightarrow> xs)
      else [])"

definition sectionLines :: "StaticTheme \<Rightarrow> string list" where
  "sectionLines t = url t @ concat (map (propSection t) staticThemeProps)"

fun catalogueLines :: "StaticTheme list \<Rightarrow> string list" where
  "catalogueLines [] = []"
| "catalogueLines [t] = recordLines t"
| "catalogueLines (t # t' # ts) = recordLines t @ [[], separatorLine, []] @ catalogueLines (t' # ts)"

text \<open>A catalogue written by hand, in the order of the sort keys: an empty selector list,
  a selector with a single \<^verbatim>\<open>=\<close>, and properties that are not in the declared order.\<close>

definition handCatalogue :: "StaticTheme list" where
  "handCatalogue =
     [\<lparr>url = [''*''], noCommon = False,
       selectors = [(''neutralBg'', [''body'', ''a[href=x]'']), (''invert'', [])]\<rparr>,
      \<lparr>url = [''a.com'', ''b.com''], noCommon = True,
       selectors = [(''invert'', [''img'']), (''neutralBg'', [''header''])]\<rparr>]"

definition sampleConfig :: FilterConfig where
  "sampleConfig = \<lparr>mode = 1, useFont = False, textStroke = 0\<rparr>"

section \<open>Properties of the parser\<close>

lemma foldE_append:
  "foldE f (xs @ ys) s = (case foldE f xs s of Inl e \<Rightarrow> Inl e | Inr s' \<Rightarrow> foldE f ys s')"
  by (induction xs arbitrary: s) (auto split: sum.splits)

lemma sectionLine_error: "sectionLine st l = Inl e \<Longrightarrow> e = TypeError"
  by (cases e) (auto simp: sectionLine_def pushLine_def Let_def split: prod.splits if_splits option.splits sum.splits)

lemma foldE_sectionLine_error: "foldE sectionLine ls st = Inl e \<Longrightarrow> e = TypeError"
proof (induction ls arbitrary: st)
  case Nil
  then show ?case by simp
next
  case (Cons l ls)
  then show ?case
    by (cases "sectionLine st l") (auto dest: sectionLine_error)
qed

lemma findIndex_conv:
  "findIndex P xs = (if list_ex P xs then int (length (takeWhile (\<lambda>x. \<not> P x) xs)) else -1)"
proof (induction xs)
  case Nil
  show ?case by simp
next
  case (Cons x xs)
  show ?case
  proof (cases "P x")
    case True
    then show ?thesis by simp
  next
    case False
    show ?thesis
    proof (cases "list_ex P xs")
      case True
      with \<open>\<not> P x\<close> Cons.IH show ?thesis by (simp add: Let_def)
    next
      case no: False
      with \<open>\<not> P x\<close> Cons.IH show ?thesis by (simp add: Let_def)
    qed
  qed
qed

lemma take_findIndex:
  "take (nat (if findIndex P xs < 0 then int (length xs) else findIndex P xs)) xs
     = takeWhile (\<lambda>x. \<not> P x) xs"
proof (cases "list_ex P xs")
  case True
  have "take (length (takeWhile (\<lambda>x. \<not> P x) xs)) xs = takeWhile (\<lambda>x. \<not> P x) xs"
    by (rule takeWhile_eq_take [symmetric])
  with True show ?thesis
    by (simp add: findIndex_conv)
next
  case False
  then have tw: "takeWhile (\<lambda>x. \<not> P x) xs = xs"
    by (intro takeWhile_eq_all_conv [THEN iffD2]) (simp add: list_ex_iff)
  from False have fi: "findIndex P xs = -1"
    by (simp add: findIndex_conv)
  show ?thesis
    unfolding fi tw by simp
qed

lemma parseBlock_conv:
  "parseBlock block =
     (case foldE sectionLine (dropWhile (\<lambda>l. \<not> isPropertyName l) (blockLines block))
             (\<lparr>url = takeWhile (\<lambda>l. \<not> isPropertyName l) (blockLines block),
               noCommon = False, selectors = []\<rparr>, None) of
        Inl e \<Rightarrow> Inl e
      | Inr st \<Rightarrow> Inr (fst st))"
  unfolding parseBlock_def Let_def take_findIndex dropWhile_eq_drop
  by (auto split: sum.splits)

lemma parseBlock_error: "parseBlock b = Inl e \<Longrightarrow> e = TypeError"
  by (auto simp: parseBlock_conv split: sum.splits dest: foldE_sectionLine_error)

lemma parseBlocks_step_conv:
  "foldE (\<lambda>themes block. case parseBlock block of Inl e \<Rightarrow> Inl e | Inr raw \<Rightarrow> Inr (themes @ [raw])) bs acc
     = Inr themes
   \<longleftrightarrow> (\<exists>rs. themes = acc @ rs \<and> list_all2 (\<lambda>b r. parseBlock b = Inr r) bs rs)"
proof (induction bs arbitrary: acc)
  case Nil
  then show ?case by auto
next
  case (Cons b bs)
  show ?case
  proof (cases "parseBlock b")
    case (Inl e)
    then show ?thesis by (auto simp: list_all2_Cons1)
  next
    case (Inr r)
    then show ?thesis
      by (auto simp: Cons.IH list_all2_Cons1)
  qed
qed

lemma parseBlocks_conv:
  "parseBlocks bs = Inr themes \<longleftrightarrow> list_all2 (\<lambda>b r. parseBlock b = Inr r) bs themes"
  by (simp add: parseBlocks_def parseBlocks_step_conv)

lemma parseBlocks_step_error:
  "foldE (\<lambda>themes block. case parseBlock block of Inl e \<Rightarrow> Inl e | Inr raw \<Rightarrow> Inr (themes @ [raw])) bs acc
     = Inl e \<Longrightarrow> e = TypeError \<and> (\<exists>b\<in>set bs. parseBlock b = Inl TypeError)"
proof (induction bs arbitrary: acc)
  case Nil
  then show ?case by simp
next
  case (Cons b bs)
  then show ?case
    by (cases "parseBlock b") (auto dest: parseBlock_error)
qed

lemma parseBlocks_failing_block:
  assumes "b \<in> set bs" and "parseBlock b = Inl TypeError"
  shows "parseBlocks bs = Inl TypeError"
proof (cases "parseBlocks bs")
  case (Inl e)
  then show ?thesis
    using parseBlocks_step_error [of bs "[]" e] by (simp add: parseBlocks_def)
next
  case (Inr themes)
  then have "list_all2 (\<lambda>b r. parseBlock b = Inr r) bs themes"
    by (simp add: parseBlocks_conv)
  with assms(1) obtain r where "parseBlock b = Inr r"
    by (auto simp: list_all2_conv_all_nth in_set_conv_nth)
  with assms(2) show ?thesis by simp
qed

lemma noCommon_body_fails:
  assumes "toPropName h = ''noCommon''" and "isPropertyName h" and "\<not> isPropertyName l"
  shows "foldE sectionLine (h # l # post) st = Inl TypeError"
  using assms by (cases st) (simp add: sectionLine_def pushLine_def Let_def)

lemma dropWhile_keeps_header:
  assumes "P h"
  shows "\<exists>pre'. dropWhile (\<lambda>x. \<not> P x) (pre @ h # rest) = pre' @ h # rest"
proof (induction pre)
  case Nil
  from assms show ?case by (intro exI [of _ "[]"]) simp
next
  case (Cons a pre)
  then obtain pre' where "dropWhile (\<lambda>x. \<not> P x) (pre @ h # rest) = pre' @ h # rest" by blast
  then show ?case
    by (cases "P a") (auto intro: exI [of _ "a # pre"])
qed

lemma parseBlock_noCommon_body:
  assumes "blockLines b = pre @ h # l # post"
    and "isPropertyName h" and "toPropName h = ''noCommon''" and "\<not> isPropertyName l"
  shows "parseBlock b = Inl TypeError"
proof -
  obtain pre' where d: "dropWhile (\<lambda>l. \<not> isPropertyName l) (blockLines b) = pre' @ h # l # post"
    using dropWhile_keeps_header [of isPropertyName h pre "l # post"] assms(1,2) by auto
  have "foldE sectionLine (pre' @ h # l # post) st = Inl TypeError" for st
  proof (cases "foldE sectionLine pre' st")
    case (Inl e)
    then show ?thesis
      by (auto simp: foldE_append dest: foldE_sectionLine_error)
  next
    case (Inr st')
    then show ?thesis
      using noCommon_body_fails [OF assms(3,2,4), of post st'] by (simp add: foldE_append)
  qed
  then show ?thesis
    by (simp add: parseBlock_conv d)
qed



lemma splitEq_nonempty: "splitEq s \<noteq> []"
  by (induction s rule: splitEq.induct) (auto split: list.splits)

lemma textBlocks_nonempty: "textBlocks text \<noteq> []"
  by (simp add: textBlocks_def splitEq_nonempty)

lemma hasCommon_conv: "hasCommon themes \<longleftrightarrow> themes \<noteq> [] \<and> primaryPattern (themes ! 0) = Some ''*''"
  by (auto simp: hasCommon_def getCommonTheme_def primaryPattern_def split: list.splits)

lemma parseBlocks_length: "parseBlocks bs = Inr themes \<Longrightarrow> length themes = length bs"
  by (simp add: parseBlocks_conv list_all2_lengthD)

lemma parseBlocks_error: "parseBlocks bs = Inl e \<Longrightarrow> e = TypeError"
  using parseBlocks_step_error [of bs "[]" e] by (simp add: parseBlocks_def)

lemma sectionLine_url:
  assumes "sectionLine (raw, p) l = Inr (raw', p')"
    and "p \<noteq> Some ''url''"
    and "isPropertyName l \<longrightarrow> toPropName l \<noteq> ''url''"
  shows "url raw' = url raw \<and> p' \<noteq> Some ''url''"
  using assms
  by (auto simp: sectionLine_def pushLine_def assignProp_def Let_def
           split: if_splits option.splits sum.splits)

lemma foldE_sectionLine_url:
  assumes "foldE sectionLine ls (raw, p) = Inr (raw', p')"
    and "p \<noteq> Some ''url''"
    and "\<forall>l\<in>set ls. isPropertyName l \<longrightarrow> toPropName l \<noteq> ''url''"
  shows "url raw' = url raw"
  using assms
proof (induction ls arbitrary: raw p)
  case Nil
  then show ?case by simp
next
  case (Cons l ls)
  from Cons.prems(1) obtain raw1 p1 where
    step: "sectionLine (raw, p) l = Inr (raw1, p1)"
    and rest: "foldE sectionLine ls (raw1, p1) = Inr (raw', p')"
    by (cases "sectionLine (raw, p) l") auto
  from sectionLine_url [OF step Cons.prems(2)] Cons.prems(3)
  have "url raw1 = url raw" and "p1 \<noteq> Some ''url''" by auto
  with Cons.IH [OF rest] Cons.prems(3) show ?case by simp
qed

lemma parseBlock_url:
  assumes "parseBlock b = Inr r"
    and "\<forall>l\<in>set (blockLines b). isPropertyName l \<longrightarrow> toPropName l \<noteq> ''url''"
  shows "url r = takeWhile (\<lambda>l. \<not> isPropertyName l) (blockLines b)"
proof -
  let ?rest = "dropWhile (\<lambda>l. \<not> isPropertyName l) (blockLines b)"
  let ?raw = "\<lparr>url = takeWhile (\<lambda>l. \<not> isPropertyName l) (blockLines b),
               noCommon = False, selectors = []\<rparr>"
  from assms(1) obtain p' where f: "foldE sectionLine ?rest (?raw, None) = Inr (r, p')"
    by (auto simp: parseBlock_conv split: sum.splits)
  have "\<forall>l\<in>set ?rest. isPropertyName l \<longrightarrow> toPropName l \<noteq> ''url''"
    using assms(2) by (auto dest: set_dropWhileD)
  with foldE_sectionLine_url [OF f] show ?thesis by simp
qed


text \<open>
  Claim C9. The parser is not total: when, in the trimmed non-empty lines of some block, a
  line that is not a section header directly follows a header that converts to
  \<open>noCommon\<close> (such as \<^verbatim>\<open>NO COMMON\<close>), the body line is pushed onto the boolean and the call
  ends with a \<open>TypeError\<close>: it returns neither a catalogue nor \<open>MalformedCatalogue\<close>.
\<close>

theorem parse_body_after_noCommon:
  assumes "b \<in> set (textBlocks text)"
    and "blockLines b = pre @ h # l # post"
    and "isPropertyName h" and "toPropName h = ''noCommon''"
    and "\<not> isPropertyName l"
  shows "parseUrlSelectorConfig text = Inl TypeError"
  using parseBlocks_failing_block [OF assms(1) parseBlock_noCommon_body [OF assms(2-5)]]
  by (simp add: parseUrlSelectorConfig_def)

theorem parse_body_after_noCommon_witness:
  "parseUrlSelectorConfig
     (''*'' @ [NL] @ ''=='' @ [NL] @ ''a.com'' @ [NL] @ ''NO COMMON'' @ [NL] @ ''b'')
   = Inl TypeError"
proof -
  let ?b = "NL # ''a.com'' @ [NL] @ ''NO COMMON'' @ [NL] @ ''b''"
  let ?t = "''*'' @ [NL] @ ''=='' @ [NL] @ ''a.com'' @ [NL] @ ''NO COMMON'' @ [NL] @ ''b''"
  have blocks: "textBlocks ?t = [''*'' @ [NL], ?b]"
    by code_simp
  have lines: "blockLines ?b = [''a.com''] @ ''NO COMMON'' # ''b'' # []"
    by code_simp
  have header: "isPropertyName ''NO COMMON''"
    by code_simp
  have name: "toPropName ''NO COMMON'' = ''noCommon''"
    by code_simp
  have body: "\<not> isPropertyName ''b''"
    by code_simp
  have mem: "?b \<in> set (textBlocks ?t)"
    unfolding blocks by simp
  show ?thesis
    using parse_body_after_noCommon [OF mem lines header name body] .
qed

text \<open>
  Claim C1, as stated, fails: a text without any \<^verbatim>\<open>*\<close> in which a body line follows
  \<^verbatim>\<open>NO COMMON\<close> ends with a \<open>TypeError\<close>, not with \<open>MalformedCatalogue\<close>.
\<close>

theorem parse_no_star_counterexample:
  "CHR ''*'' \<notin> set (''a'' @ [NL] @ ''NO COMMON'' @ [NL] @ ''b'')
   \<and> parseUrlSelectorConfig (''a'' @ [NL] @ ''NO COMMON'' @ [NL] @ ''b'') = Inl TypeError
   \<and> parseUrlSelectorConfig (''a'' @ [NL] @ ''NO COMMON'' @ [NL] @ ''b'') \<noteq> Inl MalformedCatalogue"
  by code_simp

text \<open>The url list of a record is not always read from the first lines of its block: after
  the header \<^verbatim>\<open>URL\<close> the list is assigned again and the next lines are pushed to it. So a
  block whose first line is not \<^verbatim>\<open>*\<close> can still give the common record.\<close>

lemma parse_url_header_example:
  "blockPrimary (''a'' @ [NL] @ ''URL'' @ [NL] @ ''*'') = Some ''a''
   \<and> parseUrlSelectorConfig (''a'' @ [NL] @ ''URL'' @ [NL] @ ''*'')
       = Inr [\<lparr>url = [''*''], noCommon = False, selectors = []\<rparr>]"
  by code_simp

text \<open>
  Claim C1, amended. The parser raises \<open>MalformedCatalogue\<close> exactly when every block is
  processed and the record at index 0 does not have \<open>url[0] = "*"\<close>; and for every text in
  which no block has a section header that converts to \<open>url\<close> and no block has \<^verbatim>\<open>*\<close> as its
  first line (the primary pattern of its record), the parser returns no catalogue: it raises
  \<open>MalformedCatalogue\<close>, or the \<open>TypeError\<close> of a block that cannot be processed.
\<close>

theorem parse_malformed_iff:
  "(parseUrlSelectorConfig text = Inl MalformedCatalogue \<longleftrightarrow>
      (\<exists>themes. parseBlocks (textBlocks text) = Inr themes
         \<and> primaryPattern (themes ! 0) \<noteq> Some ''*''))
   \<and> ((\<forall>b\<in>set (textBlocks text). \<not> hasUrlHeader b \<and> blockPrimary b \<noteq> Some ''*'')
        \<longrightarrow> parseUrlSelectorConfig text = Inl MalformedCatalogue
            \<or> parseUrlSelectorConfig text = Inl TypeError)"
proof (cases "parseBlocks (textBlocks text)")
  case (Inl e)
  then have "e = TypeError" by (rule parseBlocks_error)
  with Inl show ?thesis
    by (simp add: parseUrlSelectorConfig_def)
next
  case (Inr themes)
  then have all2: "list_all2 (\<lambda>b r. parseBlock b = Inr r) (textBlocks text) themes"
    by (simp add: parseBlocks_conv)
  then have len: "length themes = length (textBlocks text)"
    by (simp add: list_all2_lengthD)
  then have ne: "themes \<noteq> []"
    using textBlocks_nonempty [of "text"] by auto
  have first: "parseUrlSelectorConfig text = Inl MalformedCatalogue
      \<longleftrightarrow> primaryPattern (themes ! 0) \<noteq> Some ''*''"
    using Inr ne by (simp add: parseUrlSelectorConfig_def hasCommon_conv)
  have second: "primaryPattern (themes ! 0) \<noteq> Some ''*''"
    if h: "\<forall>b\<in>set (textBlocks text). \<not> hasUrlHeader b \<and> blockPrimary b \<noteq> Some ''*''"
  proof -
    let ?b = "textBlocks text ! 0"
    from textBlocks_nonempty [of "text"] have mem: "?b \<in> set (textBlocks text)"
      by (cases "textBlocks text") simp_all
    from textBlocks_nonempty [of "text"] have "0 < length (textBlocks text)"
      by simp
    with all2 have pb: "parseBlock ?b = Inr (themes ! 0)"
      by (rule list_all2_nthD)
    from h mem have nh: "\<not> hasUrlHeader ?b" and star: "blockPrimary ?b \<noteq> Some ''*''"
      by blast+
    from nh have "\<forall>l\<in>set (blockLines ?b). isPropertyName l \<longrightarrow> toPropName l \<noteq> ''url''"
      by (auto simp: hasUrlHeader_def list_ex_iff)
    with pb have "url (themes ! 0) = urlLines ?b"
      unfolding urlLines_def by (rule parseBlock_url)
    then have "primaryPattern (themes ! 0) = blockPrimary ?b"
      by (simp add: primaryPattern_def blockPrimary_def)
    with star show ?thesis
      by simp
  qed
  from Inr first second show ?thesis
    by auto
qed

theorem parse_malformed_iff_witness:
  "textBlocks (''a'' @ [NL] @ ''NEUTRAL BG'' @ [NL] @ ''b'')
     = [''a'' @ [NL] @ ''NEUTRAL BG'' @ [NL] @ ''b'']
   \<and> \<not> hasUrlHeader (''a'' @ [NL] @ ''NEUTRAL BG'' @ [NL] @ ''b'')
   \<and> blockPrimary (''a'' @ [NL] @ ''NEUTRAL BG'' @ [NL] @ ''b'') = Some ''a''
   \<and> parseBlocks (textBlocks (''a'' @ [NL] @ ''NEUTRAL BG'' @ [NL] @ ''b''))
       = Inr [\<lparr>url = [''a''], noCommon = False, selectors = [(''neutralBg'', [''b''])]\<rparr>]
   \<and> parseUrlSelectorConfig (''a'' @ [NL] @ ''NEUTRAL BG'' @ [NL] @ ''b'') = Inl MalformedCatalogue"
proof -
  let ?t = "''a'' @ [NL] @ ''NEUTRAL BG'' @ [NL] @ ''b''"
  have tb: "textBlocks ?t = [?t]"
    by code_simp
  have nh: "\<not> hasUrlHeader ?t"
    by code_simp
  have bp: "blockPrimary ?t = Some ''a''"
    by code_simp
  have pb: "parseBlocks (textBlocks ?t)
      = Inr [\<lparr>url = [''a''], noCommon = False, selectors = [(''neutralBg'', [''b''])]\<rparr>]"
    by code_simp
  have ne: "parseUrlSelectorConfig ?t \<noteq> Inl TypeError"
    by code_simp
  have h: "\<forall>b\<in>set (textBlocks ?t). \<not> hasUrlHeader b \<and> blockPrimary b \<noteq> Some ''*''"
    using nh bp unfolding tb by simp
  from parse_malformed_iff [of ?t] h
  have "parseUrlSelectorConfig ?t = Inl MalformedCatalogue
      \<or> parseUrlSelectorConfig ?t = Inl TypeError"
    by blast
  with ne have "parseUrlSelectorConfig ?t = Inl MalformedCatalogue"
    by blast
  with tb nh bp pb show ?thesis
    by (intro conjI)
qed

text \<open>
  Claim C8, as stated, fails: a text that ends with a separator has a last block without
  lines, and the catalogue that the parser returns has a record with an empty url list.
\<close>

theorem parse_empty_url_counterexample:
  "parseUrlSelectorConfig (''*'' @ [NL] @ ''=='' @ [NL])
   = Inr [\<lparr>url = [''*''], noCommon = False, selectors = []\<rparr>,
          \<lparr>url = [], noCommon = False, selectors = []\<rparr>]"
  by code_simp

text \<open>
  Claim C8, amended. A catalogue that the parser returns has one record per block; the url
  list of the record at index 0 is non-empty and starts with \<^verbatim>\<open>*\<close>; and the url list of
  every record whose block has no header that converts to \<open>url\<close> consists of the lines of
  the block before its first section header (a list that may be empty).
\<close>

theorem parse_url_lists:
  assumes "parseUrlSelectorConfig text = Inr themes"
  shows "length themes = length (textBlocks text)
     \<and> primaryPattern (themes ! 0) = Some ''*''
     \<and> (\<forall>i<length themes.
          (\<forall>l\<in>set (blockLines (textBlocks text ! i)). isPropertyName l \<longrightarrow> toPropName l \<noteq> ''url'')
          \<longrightarrow> url (themes ! i)
                = takeWhile (\<lambda>l. \<not> isPropertyName l) (blockLines (textBlocks text ! i)))"
proof -
  from assms have pb: "parseBlocks (textBlocks text) = Inr themes" and hc: "hasCommon themes"
    by (auto simp: parseUrlSelectorConfig_def split: sum.splits if_splits)
  from pb have all2: "list_all2 (\<lambda>b r. parseBlock b = Inr r) (textBlocks text) themes"
    by (simp add: parseBlocks_conv)
  then have len: "length themes = length (textBlocks text)"
    by (simp add: list_all2_lengthD)
  have "url (themes ! i) = takeWhile (\<lambda>l. \<not> isPropertyName l) (blockLines (textBlocks text ! i))"
    if "i < length themes"
      and "\<forall>l\<in>set (blockLines (textBlocks text ! i)). isPropertyName l \<longrightarrow> toPropName l \<noteq> ''url''"
    for i
  proof -
    from all2 that(1) len have "parseBlock (textBlocks text ! i) = Inr (themes ! i)"
      by (simp add: list_all2_conv_all_nth)
    then show ?thesis using that(2) by (rule parseBlock_url)
  qed
  with len hc show ?thesis
    by (simp add: hasCommon_conv)
qed

theorem parse_url_lists_witness:
  "parseUrlSelectorConfig (''*'' @ [NL] @ ''=='' @ [NL] @ ''a.com'' @ [NL] @ ''INVERT'' @ [NL] @ ''img'')
     = Inr [\<lparr>url = [''*''], noCommon = False, selectors = []\<rparr>,
            \<lparr>url = [''a.com''], noCommon = False, selectors = [(''invert'', [''img''])]\<rparr>]
   \<and> textBlocks (''*'' @ [NL] @ ''=='' @ [NL] @ ''a.com'' @ [NL] @ ''INVERT'' @ [NL] @ ''img'')
       = [''*'' @ [NL], NL # ''a.com'' @ [NL] @ ''INVERT'' @ [NL] @ ''img'']
   \<and> takeWhile (\<lambda>l. \<not> isPropertyName l)
         (blockLines (NL # ''a.com'' @ [NL] @ ''INVERT'' @ [NL] @ ''img'')) = [''a.com'']"
proof -
  let ?t = "''*'' @ [NL] @ ''=='' @ [NL] @ ''a.com'' @ [NL] @ ''INVERT'' @ [NL] @ ''img''"
  let ?r0 = "\<lparr>url = [''*''], noCommon = False, selectors = []\<rparr>"
  let ?r1 = "\<lparr>url = [''a.com''], noCommon = False, selectors = [(''invert'', [''img''])]\<rparr>"
  have p: "parseUrlSelectorConfig ?t = Inr [?r0, ?r1]"
    by code_simp
  have b: "textBlocks ?t = [''*'' @ [NL], NL # ''a.com'' @ [NL] @ ''INVERT'' @ [NL] @ ''img'']"
    by code_simp
  have l: "blockLines (NL # ''a.com'' @ [NL] @ ''INVERT'' @ [NL] @ ''img'') = [''a.com'', ''INVERT'', ''img'']"
    by code_simp
  have h: "\<forall>l\<in>set [''a.com'', ''INVERT'', ''img'']. isPropertyName l \<longrightarrow> toPropName l \<noteq> ''url''"
    by code_simp
  have b1: "textBlocks ?t ! 1 = NL # ''a.com'' @ [NL] @ ''INVERT'' @ [NL] @ ''img''"
    unfolding b by simp
  note at_1 = conjunct2 [OF conjunct2 [OF parse_url_lists [OF p]], THEN spec, of 1, THEN mp, THEN mp]
  have "url ([?r0, ?r1] ! 1)
      = takeWhile (\<lambda>l. \<not> isPropertyName l) (blockLines (textBlocks ?t ! 1))"
  proof (rule at_1)
    show "1 < length [?r0, ?r1]" by simp
    show "\<forall>l\<in>set (blockLines (textBlocks ?t ! 1)). isPropertyName l \<longrightarrow> toPropName l \<noteq> ''url''"
      unfolding b1 l by (rule h)
  qed
  then have "takeWhile (\<lambda>l. \<not> isPropertyName l)
         (blockLines (NL # ''a.com'' @ [NL] @ ''INVERT'' @ [NL] @ ''img'')) = [''a.com'']"
    unfolding b1 by simp
  with p b show ?thesis by simp
qed

section \<open>Properties of the resolver\<close>


lemma set_insertBy: "set (insertBy cmp x ys) = insert x (set ys)"
  by (induction ys) auto

lemma set_sortBy: "set (sortBy cmp xs) = set xs"
  by (induction xs) (auto simp: sortBy_def set_insertBy)

lemma sortBy_Cons: "sortBy cmp (x # xs) = insertBy cmp x (sortBy cmp xs)"
  by (simp add: sortBy_def)

lemma sortBy_Nil: "sortBy cmp [] = []"
  by (simp add: sortBy_def)

lemma insertBy_nonempty: "insertBy cmp x ys \<noteq> []"
  by (cases ys) auto

lemma hd_insertBy:
  "hd (insertBy cmp x ys) = (if ys = [] \<or> cmp x (hd ys) \<le> 0 then x else hd ys)"
  by (cases ys) auto

text \<open>The comparator of the resolver: descending by score.\<close>

lemma hd_sortBy_leader:
  fixes x :: "nat \<times> 'a"
  assumes "\<forall>p\<in>set post. fst p \<le> fst x"
  shows "hd (sortBy (\<lambda>a b. int (fst b) - int (fst a)) (x # post)) = x"
proof (cases "sortBy (\<lambda>a b. int (fst b) - int (fst a)) post = []")
  case True
  then show ?thesis by (simp add: sortBy_Cons)
next
  case False
  then have "hd (sortBy (\<lambda>a b. int (fst b) - int (fst a)) post) \<in> set post"
    using set_sortBy [of "\<lambda>a b. int (fst b) - int (fst a)" post] hd_in_set by blast
  with assms have "fst (hd (sortBy (\<lambda>a b. int (fst b) - int (fst a)) post)) \<le> fst x"
    by blast
  then show ?thesis
    by (simp add: sortBy_Cons hd_insertBy)
qed

lemma hd_sortBy_first_max:
  fixes x :: "nat \<times> 'a"
  assumes "\<forall>p\<in>set pre. fst p < fst x" and "\<forall>p\<in>set post. fst p \<le> fst x"
  shows "hd (sortBy (\<lambda>a b. int (fst b) - int (fst a)) (pre @ x # post)) = x"
  using assms(1)
proof (induction pre)
  case Nil
  from assms(2) show ?case by (simp add: hd_sortBy_leader)
next
  case (Cons p pre)
  then have ih: "hd (sortBy (\<lambda>a b. int (fst b) - int (fst a)) (pre @ x # post)) = x"
    and lt: "fst p < fst x"
    by simp_all
  have ne: "sortBy (\<lambda>a b. int (fst b) - int (fst a)) (pre @ x # post) \<noteq> []"
    using set_sortBy [of "\<lambda>a b. int (fst b) - int (fst a)" "pre @ x # post"] by auto
  from ih lt ne show ?case
    by (simp add: sortBy_Cons hd_insertBy)
qed

lemma first_max_split:
  fixes k :: "'a \<Rightarrow> nat"
  assumes "xs \<noteq> []"
  shows "\<exists>pre x post. xs = pre @ x # post
           \<and> (\<forall>p\<in>set pre. k p < k x) \<and> (\<forall>p\<in>set post. k p \<le> k x)"
  using assms
proof (induction xs)
  case Nil
  then show ?case by simp
next
  case (Cons y ys)
  show ?case
  proof (cases "ys = []")
    case True
    then have "y # ys = [] @ y # []" by simp
    then show ?thesis by fastforce
  next
    case False
    with Cons.IH obtain pre x post where
      ys: "ys = pre @ x # post"
      and pre: "\<forall>p\<in>set pre. k p < k x" and post: "\<forall>p\<in>set post. k p \<le> k x"
      by blast
    show ?thesis
    proof (cases "k y < k x")
      case True
      have "y # ys = (y # pre) @ x # post" by (simp add: ys)
      moreover have "\<forall>p\<in>set (y # pre). k p < k x" using True pre by simp
      ultimately show ?thesis using post by blast
    next
      case False
      have "\<forall>p\<in>set ys. k p \<le> k y"
      proof
        fix p assume "p \<in> set ys"
        then have "k p \<le> k x" using pre post by (auto simp: ys dest: less_imp_le)
        with False show "k p \<le> k y" by simp
      qed
      moreover have "y # ys = [] @ y # ys" by simp
      moreover have "\<forall>p\<in>set ([] :: 'a list). k p < k y" by simp
      ultimately show ?thesis by blast
    qed
  qed
qed

lemma specificity_score:
  assumes "isUrlInList ext u (url t) \<longrightarrow> url t \<noteq> []"
  shows "specificity ext u t = Inr (score ext u t)"
  using assms by (auto simp: specificity_def score_def primaryLength_def split: list.splits)

lemma scored_conv:
  assumes "\<forall>t\<in>set ts. isUrlInList ext u (url t) \<longrightarrow> url t \<noteq> []"
  shows "foldE (\<lambda>acc theme. case specificity ext u theme of Inl e \<Rightarrow> Inl e | Inr st \<Rightarrow> Inr (acc @ [st]))
           ts acc = Inr (acc @ map (score ext u) ts)"
  using assms by (induction ts arbitrary: acc) (simp_all add: specificity_score)

lemma fst_score_pos: "0 < fst (score ext u t) \<longleftrightarrow> candidate ext u t"
  by (simp add: score_def candidate_def)

lemma fst_score_candidate: "candidate ext u t \<Longrightarrow> fst (score ext u t) = primaryLength t"
  by (simp add: score_def candidate_def)

lemma getThemeFor_conv:
  assumes "\<forall>t\<in>set (drop 1 themes). isUrlInList ext u (url t) \<longrightarrow> url t \<noteq> []"
  shows "getThemeFor ext u themes =
     (let sorted = sortBy (\<lambda>a b. int (fst b) - int (fst a))
                     (map (score ext u) (filter (candidate ext u) (drop 1 themes)))
      in if sorted = [] then Inr None else Inr (Some (snd (hd sorted))))"
proof -
  have "filter (\<lambda>st. 0 < fst st) (map (score ext u) ts)
          = map (score ext u) (filter (candidate ext u) ts)" for ts
    by (induction ts) (simp_all add: fst_score_pos)
  then show ?thesis
    using scored_conv [OF assms, of "[]"]
    by (simp add: getThemeFor_def Let_def hd_conv_nth)
qed

lemma getThemeFor_first_max:
  assumes ok: "\<forall>t\<in>set (drop 1 themes). isUrlInList ext u (url t) \<longrightarrow> url t \<noteq> []"
    and split: "drop 1 themes = pre @ a # post"
    and a: "candidate ext u a"
    and pre: "\<forall>t\<in>set pre. candidate ext u t \<longrightarrow> primaryLength t < primaryLength a"
    and post: "\<forall>t\<in>set post. candidate ext u t \<longrightarrow> primaryLength t \<le> primaryLength a"
  shows "getThemeFor ext u themes = Inr (Some a)"
proof -
  let ?cmp = "\<lambda>(a :: nat \<times> StaticTheme) (b :: nat \<times> StaticTheme). int (fst b) - int (fst a)"
  let ?sc = "map (score ext u) (filter (candidate ext u) (drop 1 themes))"
  have sc: "?sc = map (score ext u) (filter (candidate ext u) pre) @ score ext u a
               # map (score ext u) (filter (candidate ext u) post)"
    unfolding split by (simp add: a)
  have 1: "\<forall>p\<in>set (map (score ext u) (filter (candidate ext u) pre)). fst p < fst (score ext u a)"
    using pre a by (auto simp: fst_score_candidate)
  have 2: "\<forall>p\<in>set (map (score ext u) (filter (candidate ext u) post)). fst p \<le> fst (score ext u a)"
    using post a by (auto simp: fst_score_candidate)
  have hd: "hd (sortBy ?cmp ?sc) = score ext u a"
    unfolding sc using 1 2 by (rule hd_sortBy_first_max)
  have "set (sortBy ?cmp ?sc) = set ?sc" by (rule set_sortBy)
  then have ne: "sortBy ?cmp ?sc \<noteq> []"
    unfolding sc by auto
  show ?thesis
    unfolding getThemeFor_conv [OF ok] Let_def using hd ne by (simp add: score_def)
qed


text \<open>
  Claim C3. \<open>getThemeFor\<close> reads only the records at index 1 and above (the record at
  index 0 can be replaced by any other); a record is a candidate iff \<open>isUrlInList\<close>
  accepts its url list and its primary pattern has a length above 0; the result is none
  when there is no candidate, and otherwise a candidate whose primary pattern is at least
  as long as that of every candidate. The url list of a record that the matcher accepts
  is taken to be non-empty, as the data model says (on an empty one the score cannot be
  read).
\<close>

theorem getThemeFor_selects:
  assumes "\<forall>t\<in>set (drop 1 themes). isUrlInList ext u (url t) \<longrightarrow> url t \<noteq> []"
  shows "(\<forall>c. getThemeFor ext u (c # drop 1 themes) = getThemeFor ext u themes)
     \<and> ((\<forall>t\<in>set (drop 1 themes). \<not> candidate ext u t) \<longrightarrow> getThemeFor ext u themes = Inr None)
     \<and> ((\<exists>t\<in>set (drop 1 themes). candidate ext u t) \<longrightarrow>
          (\<exists>t\<in>set (drop 1 themes). getThemeFor ext u themes = Inr (Some t) \<and> candidate ext u t
             \<and> (\<forall>t'\<in>set (drop 1 themes). candidate ext u t' \<longrightarrow> primaryLength t' \<le> primaryLength t)))"
proof (intro conjI impI allI)
  fix c
  show "getThemeFor ext u (c # drop 1 themes) = getThemeFor ext u themes"
    by (simp add: getThemeFor_def)
next
  assume "\<forall>t\<in>set (drop 1 themes). \<not> candidate ext u t"
  then have "filter (candidate ext u) (drop 1 themes) = []"
    by (simp add: filter_empty_conv)
  then show "getThemeFor ext u themes = Inr None"
    by (simp add: getThemeFor_conv [OF assms] sortBy_Nil)
next
  assume ex: "\<exists>t\<in>set (drop 1 themes). candidate ext u t"
  let ?k = "\<lambda>t. if candidate ext u t then primaryLength t else 0"
  from ex have "drop 1 themes \<noteq> []" by auto
  from first_max_split [OF this, of ?k] obtain pre x post where
    eq: "drop 1 themes = pre @ x # post"
    and pre: "\<forall>p\<in>set pre. ?k p < ?k x" and post: "\<forall>p\<in>set post. ?k p \<le> ?k x"
    by blast
  from ex obtain c where c: "c \<in> set (drop 1 themes)" "candidate ext u c" by blast
  then have "0 < ?k c" by (simp add: candidate_def)
  moreover from c(1) pre post have "?k c \<le> ?k x"
    unfolding eq by (auto dest: less_imp_le)
  ultimately have "0 < ?k x" by linarith
  then have x: "candidate ext u x" by (simp split: if_splits)
  have pre': "\<forall>t\<in>set pre. candidate ext u t \<longrightarrow> primaryLength t < primaryLength x"
    using pre x by (auto split: if_splits)
  have post': "\<forall>t\<in>set post. candidate ext u t \<longrightarrow> primaryLength t \<le> primaryLength x"
    using post x by (auto split: if_splits)
  have res: "getThemeFor ext u themes = Inr (Some x)"
    using assms eq x pre' post' by (rule getThemeFor_first_max)
  have "\<forall>t'\<in>set (drop 1 themes). candidate ext u t' \<longrightarrow> primaryLength t' \<le> primaryLength x"
    unfolding eq using pre' post' by (auto dest: less_imp_le)
  moreover have "x \<in> set (drop 1 themes)" unfolding eq by simp
  ultimately show "\<exists>t\<in>set (drop 1 themes). getThemeFor ext u themes = Inr (Some t) \<and> candidate ext u t
             \<and> (\<forall>t'\<in>set (drop 1 themes). candidate ext u t' \<longrightarrow> primaryLength t' \<le> primaryLength t)"
    using res x by blast
qed

theorem getThemeFor_selects_witness:
  "getThemeFor sampleExternals ''a.b.com'' sampleCatalogue = Inr (Some sampleSite2)
   \<and> getThemeFor sampleExternals ''c.com'' sampleCatalogue = Inr None"
proof -
  have d: "drop 1 sampleCatalogue = [sampleSite1, sampleSite2, sampleSite3]"
    by (simp add: sampleCatalogue_def)
  have u: "url sampleSite1 \<noteq> []" "url sampleSite2 \<noteq> []" "url sampleSite3 \<noteq> []"
    by (simp_all add: sampleSite1_def sampleSite2_def sampleSite3_def)
  have h: "\<forall>t\<in>set (drop 1 sampleCatalogue).
       isUrlInList sampleExternals ''a.b.com'' (url t) \<longrightarrow> url t \<noteq> []"
    unfolding d using u by simp
  have h': "\<forall>t\<in>set (drop 1 sampleCatalogue).
       isUrlInList sampleExternals ''c.com'' (url t) \<longrightarrow> url t \<noteq> []"
    unfolding d using u by simp
  have c1: "candidate sampleExternals ''a.b.com'' sampleSite1"
    by code_simp
  have l1: "primaryLength sampleSite1 = 5"
    by code_simp
  have l2: "primaryLength sampleSite2 = 7"
    by code_simp
  have l3: "primaryLength sampleSite3 = 7"
    by code_simp
  have c2: "candidate sampleExternals ''a.b.com'' sampleSite2"
    by code_simp
  have n1: "\<not> candidate sampleExternals ''c.com'' sampleSite1"
    by code_simp
  have n2: "\<not> candidate sampleExternals ''c.com'' sampleSite2"
    by code_simp
  have n3: "\<not> candidate sampleExternals ''c.com'' sampleSite3"
    by code_simp
  have nc: "\<forall>t\<in>set (drop 1 sampleCatalogue). \<not> candidate sampleExternals ''c.com'' t"
    unfolding d using n1 n2 n3 by simp
  from getThemeFor_selects [OF h'] nc
  have none: "getThemeFor sampleExternals ''c.com'' sampleCatalogue = Inr None"
    by blast
  have "\<exists>t\<in>set (drop 1 sampleCatalogue). candidate sampleExternals ''a.b.com'' t"
    unfolding d using c1 by simp
  with getThemeFor_selects [OF h] obtain t where
    t: "t \<in> set (drop 1 sampleCatalogue)"
      "getThemeFor sampleExternals ''a.b.com'' sampleCatalogue = Inr (Some t)"
      "\<forall>t'\<in>set (drop 1 sampleCatalogue). candidate sampleExternals ''a.b.com'' t'
          \<longrightarrow> primaryLength t' \<le> primaryLength t"
    by blast
  from t(3) c2 have "primaryLength sampleSite2 \<le> primaryLength t"
    unfolding d by simp
  then have "7 \<le> primaryLength t"
    by (simp add: l2)
  with l1 have "t \<noteq> sampleSite1"
    by auto
  with t(1) have "t = sampleSite2 \<or> t = sampleSite3"
    unfolding d by simp
  moreover have "getThemeFor sampleExternals ''a.b.com'' sampleCatalogue \<noteq> Inr (Some sampleSite3)"
    by code_simp
  ultimately have "getThemeFor sampleExternals ''a.b.com'' sampleCatalogue = Inr (Some sampleSite2)"
    using t(2) by auto
  with none show ?thesis by simp
qed

text \<open>
  Claim C4. When two records at index 1 or above are both candidates, their primary
  patterns have the same length, that length is the largest among the candidates, and no
  record before the first of the two ties with them, \<open>getThemeFor\<close> returns the one that
  comes first in the catalogue.
\<close>

theorem getThemeFor_tie:
  assumes "\<forall>t\<in>set (drop 1 themes). isUrlInList ext u (url t) \<longrightarrow> url t \<noteq> []"
    and "drop 1 themes = pre @ a # mid @ b # post"
    and "candidate ext u a" and "candidate ext u b"
    and "primaryLength a = primaryLength b"
    and "\<forall>t\<in>set (drop 1 themes). candidate ext u t \<longrightarrow> primaryLength t \<le> primaryLength a"
    and "\<forall>t\<in>set pre. candidate ext u t \<longrightarrow> primaryLength t \<noteq> primaryLength a"
  shows "getThemeFor ext u themes = Inr (Some a)"
proof (rule getThemeFor_first_max [OF assms(1)])
  show "drop 1 themes = pre @ a # (mid @ b # post)"
    using assms(2) by simp
  show "candidate ext u a" by (rule assms(3))
  show "\<forall>t\<in>set pre. candidate ext u t \<longrightarrow> primaryLength t < primaryLength a"
    using assms(6,7) unfolding assms(2) by (auto simp: le_less)
  show "\<forall>t\<in>set (mid @ b # post). candidate ext u t \<longrightarrow> primaryLength t \<le> primaryLength a"
    using assms(6) unfolding assms(2) by auto
qed

theorem getThemeFor_tie_witness:
  "drop 1 sampleCatalogue = [sampleSite1] @ sampleSite2 # [] @ sampleSite3 # []
   \<and> primaryLength sampleSite2 = primaryLength sampleSite3
   \<and> getThemeFor sampleExternals ''a.b.com'' sampleCatalogue = Inr (Some sampleSite2)"
proof -
  have d: "drop 1 sampleCatalogue = [sampleSite1] @ sampleSite2 # [] @ sampleSite3 # []"
    by (simp add: sampleCatalogue_def)
  have u: "url sampleSite1 \<noteq> []" "url sampleSite2 \<noteq> []" "url sampleSite3 \<noteq> []"
    by (simp_all add: sampleSite1_def sampleSite2_def sampleSite3_def)
  have c2: "candidate sampleExternals ''a.b.com'' sampleSite2"
    by code_simp
  have c3: "candidate sampleExternals ''a.b.com'' sampleSite3"
    by code_simp
  have l1: "primaryLength sampleSite1 = 5"
    by code_simp
  have l2: "primaryLength sampleSite2 = 7"
    by code_simp
  have l3: "primaryLength sampleSite3 = 7"
    by code_simp
  have h: "\<forall>t\<in>set (drop 1 sampleCatalogue).
       isUrlInList sampleExternals ''a.b.com'' (url t) \<longrightarrow> url t \<noteq> []"
    unfolding d using u by simp
  have m: "\<forall>t\<in>set (drop 1 sampleCatalogue). candidate sampleExternals ''a.b.com'' t
       \<longrightarrow> primaryLength t \<le> primaryLength sampleSite2"
    unfolding d by (simp add: l1 l2 l3)
  have f: "\<forall>t\<in>set [sampleSite1]. candidate sampleExternals ''a.b.com'' t
       \<longrightarrow> primaryLength t \<noteq> primaryLength sampleSite2"
    by (simp add: l1 l2)
  have e: "primaryLength sampleSite2 = primaryLength sampleSite3"
    by (simp add: l2 l3)
  from getThemeFor_tie [OF h d c2 c3 e m f]
  have "getThemeFor sampleExternals ''a.b.com'' sampleCatalogue = Inr (Some sampleSite2)" .
  with d e show ?thesis
    by simp
qed

section \<open>Formatting and parsing again\<close>

lemma join_append:
  "xs \<noteq> [] \<Longrightarrow> ys \<noteq> [] \<Longrightarrow> join sep (xs @ ys) = join sep xs @ sep @ join sep ys"
proof (induction xs rule: list_nonempty_induct)
  case (single x)
  then show ?case by (cases ys) simp_all
next
  case (cons x xs)
  then show ?case by (cases xs) simp_all
qed

lemma join_Cons: "join sep (x # xs) = x @ (if xs = [] then [] else sep @ join sep xs)"
  by (cases xs) simp_all

lemma NL_not_eq [simp]: "NL \<noteq> CHR ''=''" "CHR ''='' \<noteq> NL" "NL \<noteq> CR" "CR \<noteq> NL"
  by (simp_all add: NL_def CR_def)

lemma splitOn_nonempty: "splitOn d s \<noteq> []"
  by (induction s) (auto split: list.splits)

lemma splitOn_at: "d \<notin> set a \<Longrightarrow> splitOn d (a @ d # b) = a # splitOn d b"
  by (induction a) (auto split: list.splits)

lemma splitOn_none: "d \<notin> set a \<Longrightarrow> splitOn d a = [a]"
  by (induction a) (auto split: list.splits)

lemma splitOn_join:
  assumes "ls \<noteq> []" and "\<forall>l\<in>set ls. NL \<notin> set l"
  shows "splitOn NL (join [NL] ls) = ls"
  using assms
proof (induction ls rule: list_nonempty_induct)
  case (single x)
  then show ?case by (simp add: splitOn_none)
next
  case (cons x xs)
  then show ?case by (simp add: join_Cons splitOn_at)
qed

lemma dropWhile_eq_run:
  "dropWhile (\<lambda>x. x = CHR ''='') (replicate n (CHR ''='') @ NL # b) = NL # b"
  by (induction n) simp_all

lemma splitEq_run:
  "splitEq (replicate (Suc (Suc n)) (CHR ''='') @ NL # b) = [] # splitEq (NL # b)"
  by (simp add: dropWhile_eq_run)

lemma noDoubleEq_Cons: "noDoubleEq (c # cs) \<Longrightarrow> noDoubleEq cs"
  by (cases cs) simp_all

lemma noDoubleEq_hd: "noDoubleEq (CHR ''='' # cs) \<Longrightarrow> cs = [] \<or> hd cs \<noteq> CHR ''=''"
  by (cases cs) simp_all

lemma splitEq_at_sep:
  assumes "noDoubleEq a"
  shows "splitEq (a @ NL # replicate (Suc (Suc n)) (CHR ''='') @ NL # b)
           = (a @ [NL]) # splitEq (NL # b)"
  using assms
proof (induction a)
  case Nil
  have "splitEq (NL # replicate (Suc (Suc n)) (CHR ''='') @ NL # b)
      = (case splitEq (replicate (Suc (Suc n)) (CHR ''='') @ NL # b) of
           [] \<Rightarrow> [[NL]] | l # ls \<Rightarrow> (NL # l) # ls)"
    by (subst splitEq.simps) simp
  then show ?case
    unfolding splitEq_run by simp
next
  case (Cons c cs)
  let ?rest = "cs @ NL # replicate (Suc (Suc n)) (CHR ''='') @ NL # b"
  from Cons.prems have cs: "noDoubleEq cs" by (rule noDoubleEq_Cons)
  have hd: "\<not> (c = CHR ''='' \<and> ?rest \<noteq> [] \<and> hd ?rest = CHR ''='')"
  proof (cases "c = CHR ''=''")
    case True
    with Cons.prems have "cs = [] \<or> hd cs \<noteq> CHR ''=''"
      by (simp add: noDoubleEq_hd)
    then show ?thesis by (cases cs) auto
  next
    case False
    then show ?thesis by simp
  qed
  have "splitEq (c # ?rest) = (case splitEq ?rest of [] \<Rightarrow> [[c]] | l # ls \<Rightarrow> (c # l) # ls)"
    by (subst splitEq.simps(2)) (rule if_not_P [OF hd])
  then show ?case
    using Cons.IH [OF cs] by simp
qed

lemma splitEq_plain:
  assumes "noDoubleEq a"
  shows "splitEq a = [a]"
  using assms
proof (induction a)
  case Nil
  show ?case by simp
next
  case (Cons c cs)
  from Cons.prems have cs: "noDoubleEq cs" by (rule noDoubleEq_Cons)
  have hd: "\<not> (c = CHR ''='' \<and> cs \<noteq> [] \<and> hd cs = CHR ''='')"
  proof (cases "c = CHR ''=''")
    case True
    with Cons.prems have "cs = [] \<or> hd cs \<noteq> CHR ''=''"
      by (simp add: noDoubleEq_hd)
    then show ?thesis by auto
  next
    case False
    then show ?thesis by simp
  qed
  have "splitEq (c # cs) = (case splitEq cs of [] \<Rightarrow> [[c]] | l # ls \<Rightarrow> (c # l) # ls)"
    by (subst splitEq.simps(2)) (rule if_not_P [OF hd])
  then show ?case
    using Cons.IH [OF cs] by simp
qed

lemma noDoubleEq_append_NL: "noDoubleEq (a @ NL # b) \<longleftrightarrow> noDoubleEq a \<and> noDoubleEq b"
proof (induction a rule: noDoubleEq.induct)
  case 1
  show ?case by (cases b) simp_all
next
  case (2 c)
  show ?case by (cases b) simp_all
next
  case (3 c d cs)
  then show ?case by simp
qed

lemma noDoubleEq_join:
  assumes "\<forall>l\<in>set ls. noDoubleEq l"
  shows "noDoubleEq (join [NL] ls)"
  using assms
proof (induction ls)
  case Nil
  show ?case by simp
next
  case (Cons l ls)
  then show ?case
    by (cases "ls = []") (simp_all add: join_Cons noDoubleEq_append_NL)
qed

lemma set_join: "set (join sep ls) \<subseteq> set sep \<union> \<Union> (set ` set ls)"
  by (induction sep ls rule: join.induct) auto

lemma CR_join:
  assumes "\<forall>l\<in>set ls. CR \<notin> set l"
  shows "CR \<notin> set (join [NL] ls)"
  using assms set_join [of "[NL]" ls] by auto

lemma splitEq_join_sep:
  assumes "A \<noteq> []" and "B \<noteq> []" and "\<forall>l\<in>set A. noDoubleEq l"
  shows "splitEq (join [NL] (A @ separatorLine # B))
           = join [NL] (A @ [[]]) # splitEq (join [NL] ([] # B))"
proof -
  have sep: "separatorLine = replicate (Suc (Suc 30)) (CHR ''='')"
    by (simp add: separatorLine_def)
  have "join [NL] (A @ separatorLine # B) = join [NL] A @ [NL] @ join [NL] (separatorLine # B)"
    using assms(1) by (intro join_append) simp_all
  also have "join [NL] (separatorLine # B) = separatorLine @ [NL] @ join [NL] B"
    using assms(2) by (simp add: join_Cons)
  finally have "join [NL] (A @ separatorLine # B)
      = join [NL] A @ NL # replicate (Suc (Suc 30)) (CHR ''='') @ NL # join [NL] B"
    unfolding sep by simp
  moreover have "join [NL] (A @ [[]]) = join [NL] A @ [NL]"
    using assms(1) by (simp add: join_append)
  moreover have "join [NL] ([] # B) = NL # join [NL] B"
    using assms(2) by (simp add: join_Cons)
  moreover have "noDoubleEq (join [NL] A)"
    using assms(3) by (rule noDoubleEq_join)
  ultimately show ?thesis
    by (simp only: splitEq_at_sep)
qed

lemma themeLines_conv:
  "themeLines n (i, t) = recordLines t @ (if i < n - 1 then [[], separatorLine, []] else [])"
  by (simp add: themeLines_def recordLines_def)

lemma lines_catalogue:
  "concat (map (themeLines (k + length ts)) (enumerate k ts)) = catalogueLines ts"
proof (induction ts arbitrary: k rule: catalogueLines.induct)
  case 1
  show ?case by simp
next
  case (2 t)
  show ?case by (simp add: themeLines_conv)
next
  case (3 t t' ts)
  have "concat (map (themeLines (Suc k + length (t' # ts))) (enumerate (Suc k) (t' # ts)))
      = catalogueLines (t' # ts)"
    by (rule "3.IH")
  then show ?case
    by (simp add: themeLines_conv)
qed

lemma format_conv:
  assumes "sortBy compareThemes cat = cat" and "\<forall>t\<in>set cat. url t \<noteq> []"
  shows "formatUrlSelectorConfig cat = Inr (join [NL] (catalogueLines cat @ [[]]))"
proof -
  have "\<not> list_ex (\<lambda>t. url t = []) cat"
    using assms(2) by (simp add: list_ex_iff)
  moreover have "concat (map (themeLines (length cat)) (enumerate 0 cat)) = catalogueLines cat"
    using lines_catalogue [of 0 cat] by simp
  ultimately show ?thesis
    by (simp add: formatUrlSelectorConfig_def assms(1) Let_def)
qed

lemma props_facts:
  "list_all (\<lambda>p. isPropertyName (camelCaseToUpperCase p)
               \<and> toPropName (camelCaseToUpperCase p) = p
               \<and> safeLine (camelCaseToUpperCase p) \<and> p \<noteq> ''url'') staticThemeProps"
  by code_simp

lemma props_distinct: "distinct staticThemeProps"
  by code_simp

lemma noCommon_declared: "''noCommon'' \<in> set staticThemeProps" "''noCommon'' \<notin> set (tl staticThemeProps)"
  by code_simp+

lemma prop_header:
  assumes "p \<in> set staticThemeProps"
  shows "isPropertyName (camelCaseToUpperCase p)" and "toPropName (camelCaseToUpperCase p) = p"
    and "safeLine (camelCaseToUpperCase p)" and "p \<noteq> ''url''" and "camelCaseToUpperCase p \<noteq> []"
  using assms props_facts by (auto simp: list_all_iff isPropertyName_def)

lemma safeLine_Nil: "safeLine []"
  by (simp add: safeLine_def trim_def)

lemma propArray_plain:
  assumes "wellFormedRecord t" and "propArray t p = Some xs" and "p \<noteq> ''url''"
  shows "list_all plainLine xs"
proof -
  from assms(2,3) have "map_of (selectors t) p = Some xs"
    by (simp add: propArray_def split: if_splits)
  then have "(p, xs) \<in> set (selectors t)"
    by (rule map_of_SomeD)
  with assms(1) show ?thesis
    by (auto simp: wellFormedRecord_def list_all_iff)
qed

lemma propLines_safe:
  assumes "wellFormedRecord t" and "p \<in> set staticThemeProps" and "l \<in> set (propLines t p)"
  shows "safeLine l"
proof (cases "propArray t p")
  case None
  with assms(3) have "l = [] \<or> l = camelCaseToUpperCase p"
    by (auto simp: propLines_def split: if_splits)
  then show ?thesis
    using prop_header(3) [OF assms(2)] safeLine_Nil by auto
next
  case (Some xs)
  from propArray_plain [OF assms(1) Some prop_header(4) [OF assms(2)]]
  have "\<forall>x\<in>set xs. safeLine x"
    by (simp add: list_all_iff plainLine_def)
  moreover from assms(3) Some have "l = [] \<or> l = camelCaseToUpperCase p \<or> l \<in> set xs"
    by (auto simp: propLines_def split: if_splits)
  ultimately show ?thesis
    using prop_header(3) [OF assms(2)] safeLine_Nil by auto
qed

lemma recordLines_safe:
  assumes "wellFormedRecord t" and "l \<in> set (recordLines t)"
  shows "safeLine l"
proof -
  from assms(2) consider "l \<in> set (url t)"
    | p where "p \<in> set staticThemeProps" "l \<in> set (propLines t p)"
    by (auto simp: recordLines_def)
  then show ?thesis
  proof cases
    case 1
    with assms(1) show ?thesis
      by (auto simp: wellFormedRecord_def list_all_iff plainLine_def)
  next
    case 2
    with assms(1) show ?thesis by (auto intro: propLines_safe)
  qed
qed

lemma recordLines_nonempty: "wellFormedRecord t \<Longrightarrow> recordLines t \<noteq> []"
  by (simp add: wellFormedRecord_def recordLines_def)

lemma filter_propLines:
  assumes "wellFormedRecord t" and "p \<in> set staticThemeProps"
  shows "filter (\<lambda>l. l \<noteq> []) (propLines t p) = propSection t p"
proof (cases "propArray t p")
  case None
  then show ?thesis
    using prop_header(5) [OF assms(2)] by (auto simp: propLines_def propSection_def)
next
  case (Some xs)
  from propArray_plain [OF assms(1) Some prop_header(4) [OF assms(2)]]
  have "\<forall>x\<in>set xs. x \<noteq> []"
    by (auto simp: list_all_iff plainLine_def)
  then have "filter (\<lambda>l. l \<noteq> []) xs = xs"
    by (simp add: filter_id_conv)
  with Some show ?thesis
    using prop_header(5) [OF assms(2)] by (auto simp: propLines_def propSection_def)
qed

lemma filter_recordLines:
  assumes "wellFormedRecord t"
  shows "filter (\<lambda>l. l \<noteq> []) (recordLines t) = sectionLines t"
proof -
  from assms have "\<forall>x\<in>set (url t). x \<noteq> []"
    by (auto simp: wellFormedRecord_def list_all_iff plainLine_def)
  then have u: "filter (\<lambda>l. l \<noteq> []) (url t) = url t"
    by (simp add: filter_id_conv)
  have m: "map (filter (\<lambda>l. l \<noteq> [])) (map (propLines t) staticThemeProps)
      = map (propSection t) staticThemeProps"
    using assms by (auto simp: filter_propLines)
  have "filter (\<lambda>l. l \<noteq> []) (recordLines t)
      = filter (\<lambda>l. l \<noteq> []) (url t)
        @ filter (\<lambda>l. l \<noteq> []) (concat (map (propLines t) staticThemeProps))"
    by (simp only: recordLines_def filter_append)
  also have "\<dots> = url t @ concat (map (filter (\<lambda>l. l \<noteq> [])) (map (propLines t) staticThemeProps))"
    by (simp only: u filter_concat)
  also have "\<dots> = sectionLines t"
    by (simp only: m sectionLines_def)
  finally show ?thesis .
qed

lemma blockLines_record:
  assumes "wellFormedRecord t" and "set E \<subseteq> {[]}" and "set E' \<subseteq> {[]}"
  shows "blockLines (join [NL] (E @ recordLines t @ E')) = sectionLines t"
proof -
  let ?L = "E @ recordLines t @ E'"
  have safe: "\<forall>l\<in>set ?L. safeLine l"
    using assms recordLines_safe [OF assms(1)] safeLine_Nil by auto
  have ne: "?L \<noteq> []"
    using recordLines_nonempty [OF assms(1)] by simp
  have "splitOn NL (join [NL] ?L) = ?L"
    using ne safe by (intro splitOn_join) (auto simp: safeLine_def)
  moreover have "map trim ?L = ?L"
    using safe by (intro map_idI) (auto simp: safeLine_def)
  moreover have "filter (\<lambda>l. l \<noteq> []) E = []" "filter (\<lambda>l. l \<noteq> []) E' = []"
    using assms(2,3) by (auto simp: filter_empty_conv)
  ultimately show ?thesis
    by (simp add: blockLines_def filter_recordLines [OF assms(1)])
qed

lemma catalogueLines_noDoubleEq_first:
  assumes "wellFormedRecord t" and "set E \<subseteq> {[]}" and "l \<in> set (E @ recordLines t @ [[]])"
  shows "noDoubleEq l"
  using assms recordLines_safe [OF assms(1)] by (auto simp: safeLine_def)

lemma blocks_of_catalogue:
  assumes "ts \<noteq> []" and "\<forall>t\<in>set ts. wellFormedRecord t" and "set E \<subseteq> {[]}"
  shows "map blockLines (splitEq (join [NL] (E @ catalogueLines ts @ [[]]))) = map sectionLines ts"
  using assms
proof (induction ts arbitrary: E rule: catalogueLines.induct)
  case 1
  then show ?case by simp
next
  case (2 t)
  then have wf: "wellFormedRecord t" by simp
  have "noDoubleEq (join [NL] (E @ recordLines t @ [[]]))"
    using catalogueLines_noDoubleEq_first [OF wf "2.prems"(3)] by (intro noDoubleEq_join) blast
  then have "splitEq (join [NL] (E @ recordLines t @ [[]])) = [join [NL] (E @ recordLines t @ [[]])]"
    by (rule splitEq_plain)
  then show ?case
    using blockLines_record [OF wf "2.prems"(3), of "[[]]"] by simp
next
  case (3 t t' ts)
  then have wf: "wellFormedRecord t" and wfs: "\<forall>t\<in>set (t' # ts). wellFormedRecord t"
    by simp_all
  let ?A = "E @ recordLines t @ [[]]"
  let ?B = "[] # catalogueLines (t' # ts) @ [[]]"
  have lines: "E @ catalogueLines (t # t' # ts) @ [[]] = ?A @ separatorLine # ?B"
    by simp
  have "splitEq (join [NL] (?A @ separatorLine # ?B))
      = join [NL] (?A @ [[]]) # splitEq (join [NL] ([] # ?B))"
    using catalogueLines_noDoubleEq_first [OF wf "3.prems"(3)]
    by (intro splitEq_join_sep) auto
  moreover have "blockLines (join [NL] (?A @ [[]])) = sectionLines t"
    using blockLines_record [OF wf "3.prems"(3), of "[[], []]"] by simp
  moreover have "map blockLines (splitEq (join [NL] ([[], []] @ catalogueLines (t' # ts) @ [[]])))
      = map sectionLines (t' # ts)"
    using wfs by (intro "3.IH") simp_all
  ultimately show ?case
    unfolding lines by simp
qed

lemma update_fresh: "k \<notin> fst ` set al \<Longrightarrow> AList.update k v al = al @ [(k, v)]"
  by (induction al) auto

lemma update_last: "k \<notin> fst ` set al \<Longrightarrow> AList.update k v (al @ [(k, w)]) = al @ [(k, v)]"
  by (induction al) auto

lemma map_of_last: "k \<notin> fst ` set al \<Longrightarrow> map_of (al @ [(k, w)]) k = Some w"
  by (induction al) auto

text \<open>The body lines of a section are pushed onto the list of its property.\<close>

lemma push_lines:
  assumes "p \<noteq> ''noCommon''" and "p \<noteq> ''url''" and "p \<notin> fst ` set al"
    and "\<forall>l\<in>set xs. \<not> isPropertyName l"
  shows "foldE sectionLine xs (raw\<lparr>selectors := al @ [(p, acc)]\<rparr>, Some p)
           = Inr (raw\<lparr>selectors := al @ [(p, acc @ xs)]\<rparr>, Some p)"
  using assms(4)
proof (induction xs arbitrary: acc)
  case Nil
  show ?case by simp
next
  case (Cons x xs)
  have "sectionLine (raw\<lparr>selectors := al @ [(p, acc)]\<rparr>, Some p) x
      = Inr (raw\<lparr>selectors := al @ [(p, acc @ [x])]\<rparr>, Some p)"
    using Cons.prems assms(1-3)
    by (simp add: sectionLine_def pushLine_def map_of_last update_last del: map_of_append)
  moreover have "foldE sectionLine xs (raw\<lparr>selectors := al @ [(p, acc @ [x])]\<rparr>, Some p)
      = Inr (raw\<lparr>selectors := al @ [(p, (acc @ [x]) @ xs)]\<rparr>, Some p)"
    using Cons.prems by (intro Cons.IH) simp
  ultimately show ?case by simp
qed

lemma sectionEntries_Cons:
  "sectionEntries t (p # ps)
     = (case propArray t p of None \<Rightarrow> [] | Some xs \<Rightarrow> if xs = [] then [] else [(p, xs)])
       @ sectionEntries t ps"
  by (simp add: sectionEntries_def)

lemma propArray_noCommon: "propArray t ''noCommon'' = None"
  by (simp add: propArray_def)

text \<open>One section: its header and its body lines.\<close>

lemma fold_section:
  assumes p: "p \<in> set staticThemeProps" and wf: "wellFormedRecord t"
    and fresh: "p \<notin> fst ` set (selectors raw)"
  shows "\<exists>prop'. foldE sectionLine (propSection t p) (raw, pr)
           = Inr (raw\<lparr>noCommon := noCommon raw \<or> (p = ''noCommon'' \<and> noCommon t),
                       selectors := selectors raw
                         @ (case propArray t p of
                              None \<Rightarrow> []
                            | Some xs \<Rightarrow> if xs = [] then [] else [(p, xs)])\<rparr>, prop')"
proof (cases "p = ''noCommon''")
  case True
  show ?thesis
  proof (cases "noCommon t")
    case nc: True
    have "foldE sectionLine [camelCaseToUpperCase ''noCommon''] (raw, pr)
        = Inr (raw\<lparr>noCommon := True\<rparr>, Some ''noCommon'')"
      using prop_header(1,2) [OF p] True
      by (simp add: sectionLine_def assignProp_def Let_def)
    with True nc show ?thesis
      by (simp add: propSection_def propArray_noCommon)
  next
    case False
    with True show ?thesis
      by (simp add: propSection_def propArray_noCommon)
  qed
next
  case False
  note not_nc = this
  show ?thesis
  proof (cases "propArray t p")
    case None
    with not_nc show ?thesis
      by (simp add: propSection_def)
  next
    case (Some xs)
    show ?thesis
    proof (cases "xs = []")
      case True
      with Some not_nc show ?thesis
        by (simp add: propSection_def)
    next
      case False
      from propArray_plain [OF wf Some prop_header(4) [OF p]]
      have body: "\<forall>l\<in>set xs. \<not> isPropertyName l"
        by (auto simp: list_all_iff plainLine_def)
      have hdr: "sectionLine (raw, pr) (camelCaseToUpperCase p)
          = Inr (raw\<lparr>selectors := selectors raw @ [(p, [])]\<rparr>, Some p)"
        using prop_header(1,2,4) [OF p] not_nc fresh
        by (simp add: sectionLine_def assignProp_def Let_def update_fresh)
      have "foldE sectionLine xs (raw\<lparr>selectors := selectors raw @ [(p, [])]\<rparr>, Some p)
          = Inr (raw\<lparr>selectors := selectors raw @ [(p, [] @ xs)]\<rparr>, Some p)"
        using not_nc prop_header(4) [OF p] fresh body by (rule push_lines)
      with hdr have "foldE sectionLine (camelCaseToUpperCase p # xs) (raw, pr)
          = Inr (raw\<lparr>selectors := selectors raw @ [(p, xs)]\<rparr>, Some p)"
        by simp
      with Some False not_nc show ?thesis
        by (simp add: propSection_def)
    qed
  qed
qed

lemma sections_keys:
  "fst ` set (case propArray t p of None \<Rightarrow> [] | Some xs \<Rightarrow> if xs = [] then [] else [(p, xs)])
     \<subseteq> {p}"
  by (auto split: option.splits if_splits)

text \<open>All the sections of a record, in the order of the declared properties.\<close>

lemma fold_sections:
  assumes wf: "wellFormedRecord t"
    and "set ps \<subseteq> set staticThemeProps" and "distinct ps"
    and "\<forall>p\<in>set ps. p \<notin> fst ` set (selectors raw)"
  shows "\<exists>prop'. foldE sectionLine (concat (map (propSection t) ps)) (raw, pr)
           = Inr (raw\<lparr>noCommon := noCommon raw \<or> (''noCommon'' \<in> set ps \<and> noCommon t),
                       selectors := selectors raw @ sectionEntries t ps\<rparr>, prop')"
  using assms(2-4)
proof (induction ps arbitrary: raw pr)
  case Nil
  show ?case by (simp add: sectionEntries_def)
next
  case (Cons p ps)
  let ?e = "case propArray t p of None \<Rightarrow> [] | Some xs \<Rightarrow> if xs = [] then [] else [(p, xs)]"
  let ?raw1 = "raw\<lparr>noCommon := noCommon raw \<or> (p = ''noCommon'' \<and> noCommon t),
                    selectors := selectors raw @ ?e\<rparr>"
  from Cons.prems have p: "p \<in> set staticThemeProps" and fresh: "p \<notin> fst ` set (selectors raw)"
    by simp_all
  from fold_section [OF p wf fresh, where pr = pr] obtain prop1 where
    first: "foldE sectionLine (propSection t p) (raw, pr) = Inr (?raw1, prop1)"
    by blast
  have keys: "\<forall>q\<in>set ps. q \<notin> fst ` set (selectors ?raw1)"
  proof
    fix q assume q: "q \<in> set ps"
    with Cons.prems have "q \<notin> fst ` set (selectors raw)" and "q \<noteq> p"
      by auto
    then show "q \<notin> fst ` set (selectors ?raw1)"
      using sections_keys [where t = t and p = p] by auto
  qed
  from Cons.prems have "set ps \<subseteq> set staticThemeProps" and "distinct ps"
    by simp_all
  from Cons.IH [OF this keys, where pr = prop1] obtain prop' where
    rest: "foldE sectionLine (concat (map (propSection t) ps)) (?raw1, prop1)
        = Inr (?raw1\<lparr>noCommon := noCommon ?raw1 \<or> (''noCommon'' \<in> set ps \<and> noCommon t),
                      selectors := selectors ?raw1 @ sectionEntries t ps\<rparr>, prop')"
    by blast
  have "foldE sectionLine (concat (map (propSection t) (p # ps))) (raw, pr)
      = foldE sectionLine (concat (map (propSection t) ps)) (?raw1, prop1)"
    using first by (simp add: foldE_append)
  also note rest
  finally have "foldE sectionLine (concat (map (propSection t) (p # ps))) (raw, pr)
      = Inr (?raw1\<lparr>noCommon := noCommon ?raw1 \<or> (''noCommon'' \<in> set ps \<and> noCommon t),
                    selectors := selectors ?raw1 @ sectionEntries t ps\<rparr>, prop')" .
  moreover have "?raw1\<lparr>noCommon := noCommon ?raw1 \<or> (''noCommon'' \<in> set ps \<and> noCommon t),
                    selectors := selectors ?raw1 @ sectionEntries t ps\<rparr>
      = raw\<lparr>noCommon := noCommon raw \<or> (''noCommon'' \<in> set (p # ps) \<and> noCommon t),
             selectors := selectors raw @ sectionEntries t (p # ps)\<rparr>"
    by (cases "noCommon t"; cases "p = ''noCommon''")
      (simp_all add: sectionEntries_Cons propArray_noCommon)
  ultimately show ?case
    by (intro exI [of _ prop']) (simp only:)
qed

lemma takeWhile_stop: "xs = [] \<or> \<not> Q (hd xs) \<Longrightarrow> takeWhile Q xs = []"
  by (cases xs) auto

lemma dropWhile_stop: "xs = [] \<or> \<not> Q (hd xs) \<Longrightarrow> dropWhile Q xs = xs"
  by (cases xs) auto

lemma sections_start_with_header:
  assumes "set ps \<subseteq> set staticThemeProps"
  shows "concat (map (propSection t) ps) = []
         \<or> isPropertyName (hd (concat (map (propSection t) ps)))"
  using assms
proof (induction ps)
  case Nil
  show ?case by simp
next
  case (Cons p ps)
  then have p: "p \<in> set staticThemeProps" by simp
  show ?case
  proof (cases "propSection t p = []")
    case True
    with Cons show ?thesis by simp
  next
    case False
    then have "\<exists>xs. propSection t p = camelCaseToUpperCase p # xs"
      by (auto simp: propSection_def split: if_splits)
    with prop_header(1) [OF p] show ?thesis by auto
  qed
qed

lemma parseBlock_sectionLines:
  assumes wf: "wellFormedRecord t" and lines: "blockLines b = sectionLines t"
  shows "parseBlock b = Inr (canonical t)"
proof -
  let ?S = "concat (map (propSection t) staticThemeProps)"
  let ?raw = "\<lparr>url = url t, noCommon = False, selectors = []\<rparr>"
  from wf have plain: "\<forall>l\<in>set (url t). \<not> isPropertyName l"
    by (auto simp: wellFormedRecord_def list_all_iff plainLine_def)
  have start: "?S = [] \<or> isPropertyName (hd ?S)"
    by (rule sections_start_with_header) simp
  then have "takeWhile (\<lambda>l. \<not> isPropertyName l) ?S = []"
    by (intro takeWhile_stop) auto
  with plain have tw: "takeWhile (\<lambda>l. \<not> isPropertyName l) (blockLines b) = url t"
    unfolding lines sectionLines_def by simp
  from start have "dropWhile (\<lambda>l. \<not> isPropertyName l) ?S = ?S"
    by (intro dropWhile_stop) auto
  with plain have dw: "dropWhile (\<lambda>l. \<not> isPropertyName l) (blockLines b) = ?S"
    unfolding lines sectionLines_def by simp
  from fold_sections [OF wf subset_refl props_distinct, where raw = ?raw and pr = None] obtain prop' where
    "foldE sectionLine ?S (?raw, None)
       = Inr (?raw\<lparr>noCommon := noCommon ?raw \<or> (''noCommon'' \<in> set staticThemeProps \<and> noCommon t),
                   selectors := selectors ?raw @ sectionEntries t staticThemeProps\<rparr>, prop')"
    by auto
  then show ?thesis
    unfolding parseBlock_conv tw dw
    by (simp add: canonical_def sectionEntries_def noCommon_declared)
qed

lemma parse_blocks_of_catalogue:
  assumes "\<forall>t\<in>set ts. wellFormedRecord t" and "map blockLines bs = map sectionLines ts"
  shows "parseBlocks bs = Inr (map canonical ts)"
proof -
  from assms(2) have len: "length bs = length ts"
    by (rule map_eq_imp_length_eq)
  have "parseBlock (bs ! i) = Inr (map canonical ts ! i)" if "i < length bs" for i
  proof -
    from that len have "ts ! i \<in> set ts" by simp
    with assms(1) have wf: "wellFormedRecord (ts ! i)" by blast
    from assms(2) that len have "blockLines (bs ! i) = sectionLines (ts ! i)"
      by (metis nth_map)
    from parseBlock_sectionLines [OF wf this] that len show ?thesis by simp
  qed
  with len show ?thesis
    by (simp add: parseBlocks_conv list_all2_conv_all_nth)
qed

lemma catalogueLines_CR:
  assumes "\<forall>t\<in>set ts. wellFormedRecord t"
  shows "\<forall>l\<in>set (catalogueLines ts @ [[]]). CR \<notin> set l"
  using assms
proof (induction ts rule: catalogueLines.induct)
  case 1
  show ?case by simp
next
  case (2 t)
  then show ?case
    using recordLines_safe [of t] by (auto simp: safeLine_def)
next
  case (3 t t' ts)
  then have "\<forall>l\<in>set (catalogueLines (t' # ts) @ [[]]). CR \<notin> set l"
    by simp
  moreover have "\<forall>l\<in>set (recordLines t). CR \<notin> set l"
    using "3.prems" recordLines_safe [of t] by (auto simp: safeLine_def)
  moreover have "CR \<notin> set separatorLine"
    by (simp add: separatorLine_def CR_def)
  ultimately show ?case by auto
qed

lemma map_of_sectionEntries:
  "map_of (sectionEntries t ps) p
     = (if p \<in> set ps
        then (case propArray t p of None \<Rightarrow> None | Some xs \<Rightarrow> if xs = [] then None else Some xs)
        else None)"
  by (induction ps) (auto simp: sectionEntries_Cons sectionEntries_def split: option.splits)

lemma in_set_tl: "x \<in> set (tl xs) \<Longrightarrow> x \<in> set xs"
  by (cases xs) auto

lemma selectors_keys:
  assumes "wellFormedRecord t" and "map_of (selectors t) p = Some xs"
  shows "p \<in> set (tl staticThemeProps)"
proof -
  from assms(2) have "(p, xs) \<in> set (selectors t)"
    by (rule map_of_SomeD)
  with assms(1) show ?thesis
    by (auto simp: wellFormedRecord_def list_all_iff)
qed

lemma selectorList_canonical:
  assumes "wellFormedRecord t"
  shows "selectorList (canonical t) p = selectorList t p"
proof -
  have can: "selectors (canonical t) = sectionEntries t staticThemeProps"
    by (simp add: canonical_def sectionEntries_def)
  show ?thesis
  proof (cases "map_of (selectors t) p")
    case None
    then have "propArray t p = None \<or> p = ''url''"
      by (simp add: propArray_def)
    then have "map_of (sectionEntries t staticThemeProps) p = None"
      using prop_header(4) [of p] by (auto simp: map_of_sectionEntries)
    with None show ?thesis
      by (simp add: selectorList_def can)
  next
    case (Some xs)
    from selectors_keys [OF assms Some] have tl: "p \<in> set (tl staticThemeProps)" .
    then have p: "p \<in> set staticThemeProps"
      by (rule in_set_tl)
    from tl noCommon_declared(2) have "p \<noteq> ''noCommon''" by auto
    with Some prop_header(4) [OF p] have "propArray t p = Some xs"
      by (simp add: propArray_def)
    with p Some show ?thesis
      by (simp add: selectorList_def can map_of_sectionEntries)
  qed
qed

lemma format_parse:
  assumes ne: "cat \<noteq> []" and star: "primaryPattern (cat ! 0) = Some ''*''"
    and sorted: "sortBy compareThemes cat = cat"
    and wf: "\<forall>t\<in>set cat. wellFormedRecord t"
  shows "formatUrlSelectorConfig cat = Inr (join [NL] (catalogueLines cat @ [[]]))"
    and "parseUrlSelectorConfig (join [NL] (catalogueLines cat @ [[]])) = Inr (map canonical cat)"
proof -
  let ?txt = "join [NL] (catalogueLines cat @ [[]])"
  from wf have urls: "\<forall>t\<in>set cat. url t \<noteq> []"
    by (auto simp: wellFormedRecord_def)
  show "formatUrlSelectorConfig cat = Inr ?txt"
    using sorted urls by (rule format_conv)
  have "CR \<notin> set ?txt"
    using catalogueLines_CR [OF wf] by (rule CR_join)
  then have "filter (\<lambda>c. c \<noteq> CR) ?txt = ?txt"
    by (auto simp: filter_id_conv)
  then have blocks: "textBlocks ?txt = splitEq (join [NL] ([] @ catalogueLines cat @ [[]]))"
    by (simp add: textBlocks_def)
  have "map blockLines (textBlocks ?txt) = map sectionLines cat"
    unfolding blocks using ne wf by (rule blocks_of_catalogue) simp
  with wf have pb: "parseBlocks (textBlocks ?txt) = Inr (map canonical cat)"
    by (rule parse_blocks_of_catalogue)
  from ne star have "hasCommon (map canonical cat)"
    by (cases cat) (simp_all add: hasCommon_conv primaryPattern_def canonical_def)
  with pb show "parseUrlSelectorConfig ?txt = Inr (map canonical cat)"
    by (simp add: parseUrlSelectorConfig_def)
qed

text \<open>
  Claim C2, as stated, fails: a url line may have the form of a section header. The
  catalogue below meets every condition of the claim (no property at all, non-empty url
  lists, already in the order of the sort keys, the common record first), and parsing its
  formatted text returns a second record whose url list is empty and that has a property
  \<open>localhost\<close>.
\<close>

theorem parse_format_counterexample:
  "sortBy compareThemes
     [\<lparr>url = [''*''], noCommon = False, selectors = []\<rparr>,
      \<lparr>url = [''LOCALHOST''], noCommon = False, selectors = []\<rparr>]
   = [\<lparr>url = [''*''], noCommon = False, selectors = []\<rparr>,
      \<lparr>url = [''LOCALHOST''], noCommon = False, selectors = []\<rparr>]
   \<and> formatUrlSelectorConfig
       [\<lparr>url = [''*''], noCommon = False, selectors = []\<rparr>,
        \<lparr>url = [''LOCALHOST''], noCommon = False, selectors = []\<rparr>]
     = Inr (''*'' @ [NL, NL] @ separatorLine @ [NL, NL] @ ''LOCALHOST'' @ [NL])
   \<and> parseUrlSelectorConfig (''*'' @ [NL, NL] @ separatorLine @ [NL, NL] @ ''LOCALHOST'' @ [NL])
     = Inr [\<lparr>url = [''*''], noCommon = False, selectors = []\<rparr>,
            \<lparr>url = [], noCommon = False, selectors = [(''localhost'', [])]\<rparr>]"
  by code_simp

text \<open>
  Claim C2, amended. For every catalogue whose records use only selector-list properties of
  the declared set, whose url lists are non-empty, whose url lines and selector lines are
  all non-blank single lines without carriage return, without two adjacent \<^verbatim>\<open>=\<close>, without
  white space at their ends and not of the form of a section header, and which is already
  in the order of the sort keys with the common record first, the formatter returns a text
  and the parser returns for it a catalogue with the same records: the same url lists, the
  same \<open>noCommon\<close> flags and the same selector list for every property, absent and empty
  lists identified (the parsed records carry the non-empty lists in the declared order).
\<close>

theorem parse_format_roundtrip:
  assumes "cat \<noteq> []" and "primaryPattern (cat ! 0) = Some ''*''"
    and "sortBy compareThemes cat = cat"
    and "list_all wellFormedRecord cat"
  shows "\<exists>out res. formatUrlSelectorConfig cat = Inr out
           \<and> parseUrlSelectorConfig out = Inr res
           \<and> res = map canonical cat
           \<and> length res = length cat
           \<and> (\<forall>i<length cat.
                 url (res ! i) = url (cat ! i)
                 \<and> noCommon (res ! i) = noCommon (cat ! i)
                 \<and> (\<forall>p. selectorList (res ! i) p = selectorList (cat ! i) p))"
proof -
  from assms(4) have wf: "\<forall>t\<in>set cat. wellFormedRecord t"
    by (simp add: list_all_iff)
  have "url (map canonical cat ! i) = url (cat ! i)
      \<and> noCommon (map canonical cat ! i) = noCommon (cat ! i)
      \<and> (\<forall>p. selectorList (map canonical cat ! i) p = selectorList (cat ! i) p)"
    if "i < length cat" for i
  proof -
    from that wf have "wellFormedRecord (cat ! i)" by simp
    then have "\<forall>p. selectorList (canonical (cat ! i)) p = selectorList (cat ! i) p"
      by (simp add: selectorList_canonical)
    with that show ?thesis by (simp add: canonical_def)
  qed
  with format_parse [OF assms(1-3) wf] show ?thesis
    by (intro exI [of _ "join [NL] (catalogueLines cat @ [[]])"] exI [of _ "map canonical cat"]) simp
qed

theorem parse_format_roundtrip_witness:
  "formatUrlSelectorConfig handCatalogue
     = Inr (''*'' @ [NL, NL] @ ''NEUTRAL BG'' @ [NL] @ ''body'' @ [NL] @ ''a[href=x]'' @ [NL, NL]
            @ separatorLine @ [NL, NL]
            @ ''a.com'' @ [NL] @ ''b.com'' @ [NL, NL] @ ''NO COMMON'' @ [NL, NL]
            @ ''NEUTRAL BG'' @ [NL] @ ''header'' @ [NL, NL] @ ''INVERT'' @ [NL] @ ''img'' @ [NL])
   \<and> parseUrlSelectorConfig
        (''*'' @ [NL, NL] @ ''NEUTRAL BG'' @ [NL] @ ''body'' @ [NL] @ ''a[href=x]'' @ [NL, NL]
            @ separatorLine @ [NL, NL]
            @ ''a.com'' @ [NL] @ ''b.com'' @ [NL, NL] @ ''NO COMMON'' @ [NL, NL]
            @ ''NEUTRAL BG'' @ [NL] @ ''header'' @ [NL, NL] @ ''INVERT'' @ [NL] @ ''img'' @ [NL])
     = Inr [\<lparr>url = [''*''], noCommon = False,
              selectors = [(''neutralBg'', [''body'', ''a[href=x]''])]\<rparr>,
            \<lparr>url = [''a.com'', ''b.com''], noCommon = True,
              selectors = [(''neutralBg'', [''header'']), (''invert'', [''img''])]\<rparr>]"
proof -
  let ?txt = "''*'' @ [NL, NL] @ ''NEUTRAL BG'' @ [NL] @ ''body'' @ [NL] @ ''a[href=x]'' @ [NL, NL]
            @ separatorLine @ [NL, NL]
            @ ''a.com'' @ [NL] @ ''b.com'' @ [NL, NL] @ ''NO COMMON'' @ [NL, NL]
            @ ''NEUTRAL BG'' @ [NL] @ ''header'' @ [NL, NL] @ ''INVERT'' @ [NL] @ ''img'' @ [NL]"
  have 1: "handCatalogue \<noteq> []"
    by code_simp
  have 2: "primaryPattern (handCatalogue ! 0) = Some ''*''"
    by code_simp
  have 3: "sortBy compareThemes handCatalogue = handCatalogue"
    by code_simp
  have 4: "list_all wellFormedRecord handCatalogue"
    by code_simp
  have f: "formatUrlSelectorConfig handCatalogue = Inr ?txt"
    by code_simp
  have c: "map canonical handCatalogue
      = [\<lparr>url = [''*''], noCommon = False,
              selectors = [(''neutralBg'', [''body'', ''a[href=x]''])]\<rparr>,
            \<lparr>url = [''a.com'', ''b.com''], noCommon = True,
              selectors = [(''neutralBg'', [''header'']), (''invert'', [''img''])]\<rparr>]"
    by code_simp
  from parse_format_roundtrip [OF 1 2 3 4] obtain out res where
    "formatUrlSelectorConfig handCatalogue = Inr out" "parseUrlSelectorConfig out = Inr res"
    "res = map canonical handCatalogue"
    by blast
  with f have "parseUrlSelectorConfig ?txt = Inr (map canonical handCatalogue)"
    by simp
  with f show ?thesis
    unfolding c by (intro conjI)
qed

section \<open>Properties of the rule table and of the generator\<close>

lemma selector_lines:
  assumes "sels \<noteq> []"
  shows "map (\<lambda>(i, s). m s @ (if i < k + length sels - 1 then c else b)) (enumerate k sels)
           = map (\<lambda>s. m s @ c) (butlast sels) @ [m (last sels) @ b]"
  using assms
proof (induction sels arbitrary: k rule: list_nonempty_induct)
  case (single x)
  show ?case by simp
next
  case (cons x xs)
  have "map (\<lambda>(i, s). m s @ (if i < Suc k + length xs - 1 then c else b)) (enumerate (Suc k) xs)
           = map (\<lambda>s. m s @ c) (butlast xs) @ [m (last xs) @ b]"
    by (rule cons.IH)
  with cons.hyps show ?case by simp
qed

lemma join_selector_lines:
  assumes "sels \<noteq> []"
  shows "join [NL] (map (\<lambda>s. s @ '','') (butlast sels) @ [last sels @ b])
           = join ('','' @ [NL]) sels @ b"
  using assms
proof (induction sels rule: list_nonempty_induct)
  case (single x)
  show ?case by simp
next
  case (cons x xs)
  then show ?case by (simp add: join_Cons)
qed

lemma join_declaration_lines:
  "join [NL] (map g ds @ [e]) = concat (map (\<lambda>d. g d @ [NL]) ds) @ e"
  by (induction ds) (simp_all add: join_Cons)

lemma createRuleGen_conv:
  "createRuleGen g d m t th =
     (case g t of
        None \<Rightarrow> None
      | Some sels \<Rightarrow> if sels = [] then None else Some (cssRule (map m sels) (d th)))"
proof (cases "g t")
  case None
  then show ?thesis by (simp add: createRuleGen_def)
next
  case (Some sels)
  show ?thesis
  proof (cases "sels = []")
    case True
    with Some show ?thesis by (simp add: createRuleGen_def)
  next
    case False
    let ?l1 = "map (\<lambda>(i, s). m s @ (if i < length sels - 1 then '','' else '' {'')) (enumerate 0 sels)"
    let ?l2 = "map (\<lambda>d. ''    '' @ d @ '' !important;'') (d th)"
    have l1: "?l1 = map (\<lambda>s. m s @ '','') (butlast sels) @ [m (last sels) @ '' {'']"
      using selector_lines [OF False, of m 0 "'',''" "'' {''"] by simp
    have "map (\<lambda>s. s @ '','') (butlast (map m sels)) @ [last (map m sels) @ '' {'']
        = map (\<lambda>s. m s @ '','') (butlast sels) @ [m (last sels) @ '' {'']"
      using False by (simp add: map_butlast last_map comp_def)
    then have l1': "?l1 = map (\<lambda>s. s @ '','') (butlast (map m sels)) @ [last (map m sels) @ '' {'']"
      unfolding l1 by (rule sym)
    have "join [NL] (?l1 @ ?l2 @ [''}'']) = join [NL] ?l1 @ [NL] @ join [NL] (?l2 @ [''}''])"
      using False by (intro join_append) (simp_all add: enumerate_eq_zip)
    also have "join [NL] ?l1 = join ('','' @ [NL]) (map m sels) @ '' {''"
      unfolding l1' using False by (intro join_selector_lines) simp
    also have "join [NL] (?l2 @ [''}'']) = concat (map (\<lambda>d. (''    '' @ d @ '' !important;'') @ [NL]) (d th)) @ ''}''"
      by (rule join_declaration_lines)
    finally have "join [NL] (?l1 @ ?l2 @ [''}'']) = cssRule (map m sels) (d th)"
      by (simp add: cssRule_def)
    with Some False show ?thesis
      by (simp add: createRuleGen_def Let_def)
  qed
qed

lemma state_rules_aux:
  "\<forall>(role, i, base, accent, prop, hover, active)\<in>set stateRoles.
     ruleGenerators str ! i
       = createRuleGen (\<lambda>t. map_of (selectors t) role)
           (\<lambda>t. [prop @ '': '' @ rgb str (base t)]) (\<lambda>s. s)
   \<and> ruleGenerators str ! (i + 1)
       = createRuleGen (\<lambda>t. map_of (selectors t) (role @ ''Active''))
           (\<lambda>t. [prop @ '': '' @ rgb str (base t)]) (\<lambda>s. s)
   \<and> ruleGenerators str ! (i + 2)
       = createRuleGen (\<lambda>t. map_of (selectors t) (role @ ''Active''))
           (\<lambda>t. [prop @ '': '' @ rgb str (mix (base t) (ints accent) hover)]) (\<lambda>s. s @ '':hover'')
   \<and> ruleGenerators str ! (i + 3)
       = createRuleGen (\<lambda>t. map_of (selectors t) (role @ ''Active''))
           (\<lambda>t. [prop @ '': '' @ rgb str (mix (base t) (ints accent) active)])
           (\<lambda>s. s @ '':active, '' @ s @ '':focus'')"
  unfolding stateRoles_def ruleGenerators_def
  by simp

lemma border_rules_aux:
  "\<forall>(role, i, bg, fg)\<in>set borderRoles.
     ruleGenerators str ! i
       = createRuleGen (\<lambda>t. map_of (selectors t) role)
           (\<lambda>t. [''border-color: '' @ rgb str (mix (bg t) (fg t) mx_border)]) (\<lambda>s. s)"
  unfolding borderRoles_def ruleGenerators_def
  by simp

lemma mix_nth:
  assumes "i < length c1"
  shows "mix c1 c2 t ! i = Math_round (add (mul (c1 ! i) (sub (Finite 1) t)) (mul (numAt c2 i) t))"
  using assms by (simp add: mix_def nth_enumerate_eq)

lemma mx_values:
  "mx_bg_hover = Finite (fl (75 / 1000))" "\<bar>fl (75 / 1000) - 75 / 1000\<bar> < 1 / 10 ^ 17"
  "mx_bg_active = Finite (fl (1 / 10))" "\<bar>fl (1 / 10) - 1 / 10\<bar> < 1 / 10 ^ 17"
  "mx_fg_hover = Finite (1 / 4)" "mx_fg_active = Finite (1 / 2)" "mx_border = Finite (1 / 2)"
  by code_simp+

lemma mix_example:
  "rgb str (mix (ints [16, 20, 23]) (ints [255, 255, 255]) mx_bg_hover) = ''rgb(34, 38, 40)''"
  by code_simp

lemma stateRoles_ratios:
  "\<forall>(role, i, base, accent, prop, hover, active)\<in>set stateRoles.
     (prop = ''background-color'' \<and> hover = mx_bg_hover \<and> active = mx_bg_active)
     \<or> (prop = ''color'' \<and> hover = mx_fg_hover \<and> active = mx_fg_active)"
  by (simp add: stateRoles_def)

text \<open>
  Claim C10. For every record, every palette and every role with states, the rule with the
  \<^verbatim>\<open>:hover\<close> selectors and the rule with the \<^verbatim>\<open>:active, :focus\<close> selectors are generated iff
  the \<open>Active\<close> selector list of the role is present and not empty (the base list of the
  role has no part in it: a record with only that list gets only the base rule); a
  non-empty \<open>Active\<close> list also gets a rule that assigns the base colour of the role, not
  mixed, to its selectors.
\<close>

theorem ruleGenerators_state_rules:
  "\<forall>(role, i, base, accent, prop, hover, active)\<in>set stateRoles.
     (case map_of (selectors t) (role @ ''Active'') of
        None \<Rightarrow>
          (ruleGenerators str ! (i + 1)) t th = None
          \<and> (ruleGenerators str ! (i + 2)) t th = None
          \<and> (ruleGenerators str ! (i + 3)) t th = None
      | Some sels \<Rightarrow>
          if sels = []
          then (ruleGenerators str ! (i + 1)) t th = None
               \<and> (ruleGenerators str ! (i + 2)) t th = None
               \<and> (ruleGenerators str ! (i + 3)) t th = None
          else (ruleGenerators str ! (i + 1)) t th
                 = Some (cssRule sels [prop @ '': '' @ rgb str (base th)])
               \<and> (ruleGenerators str ! (i + 2)) t th
                 = Some (cssRule (map (\<lambda>s. s @ '':hover'') sels)
                     [prop @ '': '' @ rgb str (mix (base th) (ints accent) hover)])
               \<and> (ruleGenerators str ! (i + 3)) t th
                 = Some (cssRule (map (\<lambda>s. s @ '':active, '' @ s @ '':focus'') sels)
                     [prop @ '': '' @ rgb str (mix (base th) (ints accent) active)]))
     \<and> (ruleGenerators str ! i) t th
         = (case map_of (selectors t) role of
              None \<Rightarrow> None
            | Some sels \<Rightarrow>
                if sels = [] then None
                else Some (cssRule sels [prop @ '': '' @ rgb str (base th)]))"
  using state_rules_aux [of str]
  by (auto simp: createRuleGen_conv split: option.splits)

theorem ruleGenerators_state_rules_witness:
  "(ruleGenerators (fractionToString sampleExternals) ! 1) sampleSite2 darkTheme
     = Some (''a,'' @ [NL] @ ''button {'' @ [NL]
             @ ''    background-color: rgb(16, 20, 23) !important;'' @ [NL] @ ''}'')
   \<and> (ruleGenerators (fractionToString sampleExternals) ! 2) sampleSite2 darkTheme
     = Some (''a:hover,'' @ [NL] @ ''button:hover {'' @ [NL]
             @ ''    background-color: rgb(34, 38, 40) !important;'' @ [NL] @ ''}'')
   \<and> (ruleGenerators (fractionToString sampleExternals) ! 2) sampleCommon darkTheme = None
   \<and> (ruleGenerators (fractionToString sampleExternals) ! 3) sampleCommon darkTheme = None"
proof -
  let ?str = "fractionToString sampleExternals"
  let ?row = "(''neutralBg'', 0 :: nat, neutralBg, [255, 255, 255 :: int], ''background-color'',
               mx_bg_hover, mx_bg_active)"
  have row: "?row \<in> set stateRoles"
    by (simp add: stateRoles_def)
  have idx: "(0 :: nat) + 1 = 1" "(0 :: nat) + 2 = 2" "(0 :: nat) + 3 = 3"
    by simp_all
  have act: "map_of (selectors sampleSite2) (''neutralBg'' @ ''Active'') = Some [''a'', ''button'']"
    by code_simp
  have none: "map_of (selectors sampleCommon) (''neutralBg'' @ ''Active'') = None"
    by code_simp
  have base: "neutralBg darkTheme = ints [16, 20, 23]"
    by (simp add: darkTheme_def)
  have r1: "cssRule [''a'', ''button''] [''background-color'' @ '': '' @ rgb ?str (ints [16, 20, 23])]
      = ''a,'' @ [NL] @ ''button {'' @ [NL]
             @ ''    background-color: rgb(16, 20, 23) !important;'' @ [NL] @ ''}''"
    by code_simp
  have r2: "cssRule (map (\<lambda>s. s @ '':hover'') [''a'', ''button''])
        [''background-color'' @ '': '' @ ''rgb(34, 38, 40)'']
      = ''a:hover,'' @ [NL] @ ''button:hover {'' @ [NL]
             @ ''    background-color: rgb(34, 38, 40) !important;'' @ [NL] @ ''}''"
    by code_simp
  note inst = bspec [OF ruleGenerators_state_rules
      [where t = sampleSite2 and str = ?str and th = darkTheme] row,
      unfolded prod.case act option.case idx base mix_example r1 r2]
  note inst' = bspec [OF ruleGenerators_state_rules
      [where t = sampleCommon and str = ?str and th = darkTheme] row,
      unfolded prod.case none option.case idx]
  have 1: "(ruleGenerators ?str ! 1) sampleSite2 darkTheme
     = Some (''a,'' @ [NL] @ ''button {'' @ [NL]
             @ ''    background-color: rgb(16, 20, 23) !important;'' @ [NL] @ ''}'')"
    using inst by (simp only: list.simps if_False)
  have 2: "(ruleGenerators ?str ! 2) sampleSite2 darkTheme
     = Some (''a:hover,'' @ [NL] @ ''button:hover {'' @ [NL]
             @ ''    background-color: rgb(34, 38, 40) !important;'' @ [NL] @ ''}'')"
    using inst by (simp only: list.simps if_False)
  have 3: "(ruleGenerators ?str ! 2) sampleCommon darkTheme = None"
    using inst' by (simp only:)
  have 4: "(ruleGenerators ?str ! 3) sampleCommon darkTheme = None"
    using inst' by (simp only:)
  from 1 2 3 4 show ?thesis
    by (intro conjI)
qed

text \<open>
  Claim C6. \<open>mix\<close> works channel by channel, \<open>round(base * (1 - t) + accent * t)\<close> in the
  arithmetic of doubles; the ratios are the doubles nearest to 0.075 (background, hover) and
  0.1 (background, active), and 0.25 (text, hover), 0.5 (text, active) and 0.5 (border); the
  hover, active and border rules of the table mix with these ratios; and \<open>[16, 20, 23]\<close>
  mixed with \<open>[255, 255, 255]\<close> at the hover ratio of backgrounds is the colour rendered as
  \<^verbatim>\<open>rgb(34, 38, 40)\<close>.
\<close>

theorem mix_channels:
  "length (mix c1 c2 t) = length c1
   \<and> (\<forall>i<length c1.
         mix c1 c2 t ! i = Math_round (add (mul (c1 ! i) (sub (Finite 1) t)) (mul (numAt c2 i) t)))
   \<and> mx_bg_hover = Finite (fl (75 / 1000)) \<and> \<bar>fl (75 / 1000) - 75 / 1000\<bar> < 1 / 10 ^ 17
   \<and> mx_bg_active = Finite (fl (1 / 10)) \<and> \<bar>fl (1 / 10) - 1 / 10\<bar> < 1 / 10 ^ 17
   \<and> mx_fg_hover = Finite (1 / 4) \<and> mx_fg_active = Finite (1 / 2) \<and> mx_border = Finite (1 / 2)
   \<and> (\<forall>(role, i, base, accent, prop, hover, active)\<in>set stateRoles.
         ((prop = ''background-color'' \<and> hover = mx_bg_hover \<and> active = mx_bg_active)
          \<or> (prop = ''color'' \<and> hover = mx_fg_hover \<and> active = mx_fg_active))
         \<and> (\<forall>sels. map_of (selectors r) (role @ ''Active'') = Some sels \<and> sels \<noteq> [] \<longrightarrow>
               (ruleGenerators str ! (i + 2)) r th
                 = Some (cssRule (map (\<lambda>s. s @ '':hover'') sels)
                     [prop @ '': '' @ rgb str (mix (base th) (ints accent) hover)])
               \<and> (ruleGenerators str ! (i + 3)) r th
                 = Some (cssRule (map (\<lambda>s. s @ '':active, '' @ s @ '':focus'') sels)
                     [prop @ '': '' @ rgb str (mix (base th) (ints accent) active)])))
   \<and> (\<forall>(role, i, bg, fg)\<in>set borderRoles.
         \<forall>sels. map_of (selectors r) role = Some sels \<and> sels \<noteq> [] \<longrightarrow>
           (ruleGenerators str ! i) r th
             = Some (cssRule sels [''border-color: '' @ rgb str (mix (bg th) (fg th) mx_border)]))
   \<and> rgb str (mix (ints [16, 20, 23]) (ints [255, 255, 255]) mx_bg_hover) = ''rgb(34, 38, 40)''"
proof -
  have len: "length (mix c1 c2 t) = length c1"
    by (simp add: mix_def enumerate_eq_zip)
  have rules: "\<forall>(role, i, base, accent, prop, hover, active)\<in>set stateRoles.
         ((prop = ''background-color'' \<and> hover = mx_bg_hover \<and> active = mx_bg_active)
          \<or> (prop = ''color'' \<and> hover = mx_fg_hover \<and> active = mx_fg_active))
         \<and> (\<forall>sels. map_of (selectors r) (role @ ''Active'') = Some sels \<and> sels \<noteq> [] \<longrightarrow>
               (ruleGenerators str ! (i + 2)) r th
                 = Some (cssRule (map (\<lambda>s. s @ '':hover'') sels)
                     [prop @ '': '' @ rgb str (mix (base th) (ints accent) hover)])
               \<and> (ruleGenerators str ! (i + 3)) r th
                 = Some (cssRule (map (\<lambda>s. s @ '':active, '' @ s @ '':focus'') sels)
                     [prop @ '': '' @ rgb str (mix (base th) (ints accent) active)]))"
    using state_rules_aux [of str] stateRoles_ratios
    by (auto simp: createRuleGen_conv)
  have borders: "\<forall>(role, i, bg, fg)\<in>set borderRoles.
         \<forall>sels. map_of (selectors r) role = Some sels \<and> sels \<noteq> [] \<longrightarrow>
           (ruleGenerators str ! i) r th
             = Some (cssRule sels [''border-color: '' @ rgb str (mix (bg th) (fg th) mx_border)])"
    using border_rules_aux [of str]
    by (auto simp: createRuleGen_conv)
  from len mix_nth [of _ c1 c2 t] mx_values rules borders mix_example [of str]
  show ?thesis
    by (intro conjI allI impI) assumption+
qed

theorem mix_channels_witness:
  "0 < length (ints [16, 20, 23])
   \<and> mix (ints [16, 20, 23]) (ints [255, 255, 255]) mx_bg_hover ! 0 = Finite 34
   \<and> length (mix (ints [16, 20, 23]) (ints [255, 255, 255]) mx_bg_hover) = 3"
proof -
  have l: "length (ints [16, 20, 23]) = 3"
    by code_simp
  then have h: "0 < length (ints [16, 20, 23])"
    by simp
  have v: "Math_round (add (mul (ints [16, 20, 23] ! 0) (sub (Finite 1) mx_bg_hover))
                           (mul (numAt (ints [255, 255, 255]) 0) mx_bg_hover)) = Finite 34"
    by code_simp
  note inst = mix_channels [where ?c1.0 = "ints [16, 20, 23]" and ?c2.0 = "ints [255, 255, 255]"
      and t = mx_bg_hover]
  from inst have "length (mix (ints [16, 20, 23]) (ints [255, 255, 255]) mx_bg_hover)
      = length (ints [16, 20, 23])"
    by (rule conjunct1)
  moreover from inst h
  have "mix (ints [16, 20, 23]) (ints [255, 255, 255]) mx_bg_hover ! 0
      = Math_round (add (mul (ints [16, 20, 23] ! 0) (sub (Finite 1) mx_bg_hover))
                           (mul (numAt (ints [255, 255, 255]) 0) mx_bg_hover))"
    by blast
  ultimately show ?thesis
    using h l v by simp
qed

lemma keepTruthy_append: "keepTruthy (xs @ ys) = keepTruthy xs @ keepTruthy ys"
  by (simp add: keepTruthy_def)

lemma keepTruthy_Nil: "keepTruthy [] = []"
  by (simp add: keepTruthy_def)

lemma keepTruthy_Some: "s \<noteq> [] \<Longrightarrow> keepTruthy (Some s # xs) = s # keepTruthy xs"
  by (simp add: keepTruthy_def)

lemma getThemeFor_Cons: "getThemeFor ext u (c # rest) = getThemeFor ext u (c' # rest)"
  by (simp add: getThemeFor_def)

lemma stylesheet_without_common:
  assumes "getThemeFor ext u themes = Inr (Some s)" and "noCommon s"
  shows "createStaticStylesheet ext config u themes
       = Inr (join [NL] (keepTruthy (siteLines (fractionToString ext) s (deriveTheme ext config)
                                       @ fontLines ext config)))"
  using assms by (simp add: createStaticStylesheet_def Let_def)

lemma stylesheet_with_common:
  assumes "getThemeFor ext u (c # rest) = Inr site"
    and "case site of None \<Rightarrow> True | Some s \<Rightarrow> \<not> noCommon s"
  shows "createStaticStylesheet ext config u (c # rest)
       = Inr (join [NL]
           (''/* Common theme */''
            # keepTruthy (map (\<lambda>gen. gen c (deriveTheme ext config))
                            (ruleGenerators (fractionToString ext)))
            @ keepTruthy ((case site of
                             None \<Rightarrow> []
                           | Some s \<Rightarrow> siteLines (fractionToString ext) s (deriveTheme ext config))
                          @ fontLines ext config)))"
  using assms
  by (simp add: createStaticStylesheet_def Let_def commonLines_def getCommonTheme_def
      keepTruthy_append keepTruthy_Some)

text \<open>
  Claim C5. When the resolver selects a record whose \<open>noCommon\<close> is true, the stylesheet
  consists of the block of that record and the font block only: it starts with the
  \<^verbatim>\<open>/* Theme for\<close> comment and stays the same when the common record is replaced by any
  other, so no rule of the common record is emitted. When no record is selected, or the
  selected one does not set \<open>noCommon\<close>, the stylesheet starts with the
  \<^verbatim>\<open>/* Common theme */\<close> comment, followed by the output of the rule table for the common
  record and then by the other blocks.
\<close>

theorem createStaticStylesheet_common_block:
  "(getThemeFor ext u themes = Inr (Some s) \<and> noCommon s \<longrightarrow>
      createStaticStylesheet ext config u themes
        = Inr (join [NL] (keepTruthy (siteLines (fractionToString ext) s (deriveTheme ext config)
                                        @ fontLines ext config)))
      \<and> (\<forall>c. createStaticStylesheet ext config u (c # drop 1 themes)
               = createStaticStylesheet ext config u themes)
      \<and> (\<exists>more. createStaticStylesheet ext config u themes = Inr (''/* Theme for '' @ more)))
   \<and> (getThemeFor ext u (c # rest) = Inr site
        \<and> (case site of None \<Rightarrow> True | Some s \<Rightarrow> \<not> noCommon s) \<longrightarrow>
      createStaticStylesheet ext config u (c # rest)
        = Inr (join [NL]
            (''/* Common theme */''
             # keepTruthy (map (\<lambda>gen. gen c (deriveTheme ext config))
                             (ruleGenerators (fractionToString ext)))
             @ keepTruthy ((case site of
                              None \<Rightarrow> []
                            | Some s \<Rightarrow> siteLines (fractionToString ext) s (deriveTheme ext config))
                           @ fontLines ext config)))
      \<and> (\<exists>more. createStaticStylesheet ext config u (c # rest) = Inr (''/* Common theme */'' @ more)))"
proof (intro conjI impI; (elim conjE)?)
  assume site: "getThemeFor ext u themes = Inr (Some s)" and nc: "noCommon s"
  show "createStaticStylesheet ext config u themes
        = Inr (join [NL] (keepTruthy (siteLines (fractionToString ext) s (deriveTheme ext config)
                                        @ fontLines ext config)))"
    using site nc by (rule stylesheet_without_common)
  show "\<forall>c. createStaticStylesheet ext config u (c # drop 1 themes)
               = createStaticStylesheet ext config u themes"
  proof
    fix c
    have "getThemeFor ext u (c # drop 1 themes) = getThemeFor ext u themes"
      by (simp add: getThemeFor_def)
    with site have "getThemeFor ext u (c # drop 1 themes) = Inr (Some s)" by simp
    from stylesheet_without_common [OF this nc] stylesheet_without_common [OF site nc]
    show "createStaticStylesheet ext config u (c # drop 1 themes)
               = createStaticStylesheet ext config u themes"
      by simp
  qed
  show "\<exists>more. createStaticStylesheet ext config u themes = Inr (''/* Theme for '' @ more)"
    unfolding stylesheet_without_common [OF site nc]
    by (simp add: siteLines_def keepTruthy_Some join_Cons)
next
  assume site: "getThemeFor ext u (c # rest) = Inr site"
    and nc: "case site of None \<Rightarrow> True | Some s \<Rightarrow> \<not> noCommon s"
  show "createStaticStylesheet ext config u (c # rest)
        = Inr (join [NL]
            (''/* Common theme */''
             # keepTruthy (map (\<lambda>gen. gen c (deriveTheme ext config))
                             (ruleGenerators (fractionToString ext)))
             @ keepTruthy ((case site of
                              None \<Rightarrow> []
                            | Some s \<Rightarrow> siteLines (fractionToString ext) s (deriveTheme ext config))
                           @ fontLines ext config)))"
    using site nc by (rule stylesheet_with_common)
  show "\<exists>more. createStaticStylesheet ext config u (c # rest) = Inr (''/* Common theme */'' @ more)"
    unfolding stylesheet_with_common [OF site nc]
    by (simp add: join_Cons)
qed

theorem createStaticStylesheet_common_block_witness:
  "getThemeFor sampleExternals ''a.b.com'' sampleCatalogue = Inr (Some sampleSite2)
   \<and> noCommon sampleSite2
   \<and> createStaticStylesheet sampleExternals sampleConfig ''a.b.com'' sampleCatalogue
      = Inr (join [NL]
          (keepTruthy (siteLines (fractionToString sampleExternals) sampleSite2
                         (deriveTheme sampleExternals sampleConfig)
                       @ fontLines sampleExternals sampleConfig)))
   \<and> getThemeFor sampleExternals ''c.com'' (sampleCommon # drop 1 sampleCatalogue) = Inr None
   \<and> (\<exists>more. createStaticStylesheet sampleExternals sampleConfig ''c.com''
                 (sampleCommon # drop 1 sampleCatalogue)
               = Inr (''/* Common theme */'' @ more))"
proof -
  have g: "getThemeFor sampleExternals ''a.b.com'' sampleCatalogue = Inr (Some sampleSite2)"
    by code_simp
  have n: "noCommon sampleSite2"
    by code_simp
  have g': "getThemeFor sampleExternals ''c.com'' (sampleCommon # drop 1 sampleCatalogue) = Inr None"
    by code_simp
  have n': "case None :: StaticTheme option of None \<Rightarrow> True | Some s \<Rightarrow> \<not> noCommon s"
    by simp
  note inst = createStaticStylesheet_common_block
    [where ext = sampleExternals and u = "''a.b.com''" and themes = sampleCatalogue
       and s = sampleSite2 and config = sampleConfig, THEN conjunct1, THEN mp, THEN conjunct1]
  note inst' = createStaticStylesheet_common_block
    [where ext = sampleExternals and u = "''c.com''" and config = sampleConfig
       and c = sampleCommon and rest = "drop 1 sampleCatalogue" and site = None,
     THEN conjunct2, THEN mp, THEN conjunct2]
  from g n have a: "createStaticStylesheet sampleExternals sampleConfig ''a.b.com'' sampleCatalogue
      = Inr (join [NL]
          (keepTruthy (siteLines (fractionToString sampleExternals) sampleSite2
                         (deriveTheme sampleExternals sampleConfig)
                       @ fontLines sampleExternals sampleConfig)))"
    by (intro inst conjI)
  from g' n' have b: "\<exists>more. createStaticStylesheet sampleExternals sampleConfig ''c.com''
                 (sampleCommon # drop 1 sampleCatalogue)
               = Inr (''/* Common theme */'' @ more)"
    by (intro inst' conjI)
  from g n a g' b show ?thesis
    by (intro conjI)
qed

text \<open>
  Claim C7. The palette of a call (\<open>deriveTheme\<close>, the \<open>theme\<close> of
  \<open>createStaticStylesheet\<close>) has exactly the roles of the base palette, the dark one when
  \<open>mode\<close> is 1 and the light one otherwise, each colour passed through
  \<open>applyFilterToColor\<close> with the caller's configuration in which \<open>mode\<close> is 0.
\<close>

theorem deriveTheme_entries:
  "entries (deriveTheme ext config)
     = map (\<lambda>(role, color). (role, applyFilterToColor ext color (config\<lparr>mode := 0\<rparr>)))
         (entries (if mode config = 1 then darkTheme else lightTheme))
   \<and> map fst (entries (deriveTheme ext config))
     = map fst (entries (if mode config = 1 then darkTheme else lightTheme))"
  by (simp add: entries_def deriveTheme_def Let_def)

theorem deriveTheme_entries_witness:
  "entries (deriveTheme sampleExternals sampleConfig) = entries darkTheme"
proof -
  have m: "mode sampleConfig = 1"
    by code_simp
  have f: "map (\<lambda>(role, color). (role, applyFilterToColor sampleExternals color (sampleConfig\<lparr>mode := 0\<rparr>)))
         (entries darkTheme) = entries darkTheme"
    by (simp add: sampleExternals_def entries_def)
  from deriveTheme_entries [of sampleExternals sampleConfig] m f show ?thesis
    by simp
qed

end
